theory Spec2Isabelle
  imports Complex_Main
begin

section \<open>The blood bank forecasting engine of \<^verbatim>\<open>app.py\<close>\<close>

text \<open>
  A shallow embedding of \<^verbatim>\<open>run_simulation\<close> (lines 159 to 238 of \<^verbatim>\<open>app.py\<close>) and of
  the derived metrics computed from its result (lines 282, 737 and 821).

  Conventions of the embedding:
  \<^item> Python and numpy floats are modelled as \<^typ>\<open>real\<close>: rounding, overflow and NaN of
    IEEE doubles are not represented. Where a library call would produce NaN or has no
    value in the reals, the model returns an error value instead.
  \<^item> The reals and the calendar of the model are unbounded. In the code \<^verbatim>\<open>int()\<close> raises on
    a float that has overflowed to infinity or is NaN (lines 228 to 230), the date
    arithmetic of line 224 raises beyond the range of pandas' timestamps, and line 161
    raises on a text that is no date. The model has none of these inputs: what it says of
    a run holds for runs whose floats stay finite and whose dates stay in range.
  \<^item> Every raise is a value: fallible functions return \<open>py_error + 'a\<close>.
  \<^item> The process-wide state that \<^verbatim>\<open>run_simulation\<close> reads or writes is explicit: the
    global numpy random generator and the wall clock form a \<open>world\<close>; the caller's data
    frame, which line 161 assigns to, is returned next to the result.
  \<^item> The standard-normal sequence that numpy's generator yields after
    \<^verbatim>\<open>np.random.seed(s)\<close> is a parameter \<open>gauss s k\<close> (the \<open>k\<close>-th draw after seeding with
    \<open>s\<close>); \<^verbatim>\<open>np.random.normal(loc, scale)\<close> is \<open>loc + scale * draw\<close>.
\<close>

subsection \<open>Errors\<close>

datatype py_error =
    TypeError            \<comment> \<open>\<^verbatim>\<open>np.polyfit\<close>: empty or mismatched vectors\<close>
  | RankWarning          \<comment> \<open>\<^verbatim>\<open>np.polyfit\<close>: degenerate design, the fit has no value in the model\<close>
  | NaNResult            \<comment> \<open>\<^verbatim>\<open>Series.std\<close> of fewer than two values is NaN\<close>
  | ValueError           \<comment> \<open>\<^verbatim>\<open>np.random.normal\<close>: negative scale\<close>
  | ZeroDivisionError    \<comment> \<open>division by zero\<close>

subsection \<open>Timestamps\<close>

datatype month = Jan | Feb | Mar | Apr | May | Jun | Jul | Aug | Sep | Oct | Nov | Dec

record timestamp =
  ts_year :: nat
  ts_month :: month
  ts_day :: nat

definition month_list :: "month list" where
  "month_list = [Jan, Feb, Mar, Apr, May, Jun, Jul, Aug, Sep, Oct, Nov, Dec]"

fun month_number :: "month \<Rightarrow> nat" where
  "month_number Jan = 0" | "month_number Feb = 1" | "month_number Mar = 2"
| "month_number Apr = 3" | "month_number May = 4" | "month_number Jun = 5"
| "month_number Jul = 6" | "month_number Aug = 7" | "month_number Sep = 8"
| "month_number Oct = 9" | "month_number Nov = 10" | "month_number Dec = 11"

definition month_index :: "timestamp \<Rightarrow> nat" where
  \<comment> \<open>calendar months since year 0: the bin of a timestamp under the \<^verbatim>\<open>'MS'\<close> frequency\<close>
  "month_index t = ts_year t * 12 + month_number (ts_month t)"

definition month_start :: "nat \<Rightarrow> timestamp" where
  \<comment> \<open>the first day of the month with the given index\<close>
  "month_start k = \<lparr>ts_year = k div 12, ts_month = month_list ! (k mod 12), ts_day = 1\<rparr>"

definition is_leap :: "nat \<Rightarrow> bool" where
  "is_leap y = (y mod 4 = 0 \<and> (y mod 100 \<noteq> 0 \<or> y mod 400 = 0))"

definition days_in_month :: "nat \<Rightarrow> month \<Rightarrow> nat" where
  "days_in_month y m =
     (if m = Feb then (if is_leap y then 29 else 28)
      else if m = Apr \<or> m = Jun \<or> m = Sep \<or> m = Nov then 30 else 31)"

definition date_offset_months :: "timestamp \<Rightarrow> int \<Rightarrow> timestamp" where
  \<comment> \<open>\<^verbatim>\<open>t + pd.DateOffset(months=m)\<close>: the month moves, the day is clipped to the target
      month's length. The loop only calls it with \<open>m \<ge> 1\<close>. pandas raises once the date
      leaves the range of its timestamps; the years of the model are unbounded.\<close>
  "date_offset_months t m =
     (let k = nat (int (month_index t) + m);
          y = k div 12;
          mo = month_list ! (k mod 12)
      in \<lparr>ts_year = y, ts_month = mo, ts_day = min (ts_day t) (days_in_month y mo)\<rparr>)"

fun month_abbr :: "month \<Rightarrow> string" where
  "month_abbr Jan = ''Jan''" | "month_abbr Feb = ''Feb''" | "month_abbr Mar = ''Mar''"
| "month_abbr Apr = ''Apr''" | "month_abbr May = ''May''" | "month_abbr Jun = ''Jun''"
| "month_abbr Jul = ''Jul''" | "month_abbr Aug = ''Aug''" | "month_abbr Sep = ''Sep''"
| "month_abbr Oct = ''Oct''" | "month_abbr Nov = ''Nov''" | "month_abbr Dec = ''Dec''"

definition digit_char :: "nat \<Rightarrow> char" where
  "digit_char d = ''0123456789'' ! (d mod 10)"

fun show_nat :: "nat \<Rightarrow> string" where
  "show_nat n = (if n < 10 then [digit_char n] else show_nat (n div 10) @ [digit_char (n mod 10)])"

definition strftime_b_Y :: "timestamp \<Rightarrow> string" where
  \<comment> \<open>\<^verbatim>\<open>t.strftime("%b %Y")\<close>\<close>
  "strftime_b_Y t = month_abbr (ts_month t) @ '' '' @ show_nat (ts_year t)"

subsection \<open>The process state: numpy's global generator and the clock\<close>

record rng_state =
  rng_seed :: nat   \<comment> \<open>the seed last given to \<^verbatim>\<open>np.random.seed\<close>\<close>
  rng_pos :: nat    \<comment> \<open>normal draws taken since\<close>

record world =
  rng :: rng_state
  clock :: timestamp   \<comment> \<open>what \<^verbatim>\<open>datetime.now()\<close> reads\<close>

definition np_random_seed :: "nat \<Rightarrow> rng_state" where
  "np_random_seed s = \<lparr>rng_seed = s, rng_pos = 0\<rparr>"

definition np_random_normal ::
  "(nat \<Rightarrow> nat \<Rightarrow> real) \<Rightarrow> real \<Rightarrow> real \<Rightarrow> rng_state \<Rightarrow> py_error + (real \<times> rng_state)" where
  "np_random_normal gauss loc scale g =
     (if scale < 0 then Inl ValueError
      else Inr (loc + scale * gauss (rng_seed g) (rng_pos g), g\<lparr>rng_pos := rng_pos g + 1\<rparr>))"

subsection \<open>The data frames\<close>

text \<open>
  A cell of the \<^verbatim>\<open>created_at\<close> column is either a timestamp (dtype \<^verbatim>\<open>datetime64\<close>, as
  \<^verbatim>\<open>load_data\<close> leaves it at line 111) or a text that \<^verbatim>\<open>pd.to_datetime\<close> parses to a
  timestamp; \<open>Text t\<close> stands for any such text with parsed value \<open>t\<close>. Frames whose
  column holds missing values or a text that is no date (on which line 161 raises) are
  outside the model.
\<close>

datatype datetime_cell = Stamp timestamp | Text timestamp

fun cell_time :: "datetime_cell \<Rightarrow> timestamp" where
  "cell_time (Stamp t) = t"
| "cell_time (Text t) = t"

fun is_stamp :: "datetime_cell \<Rightarrow> bool" where
  "is_stamp (Stamp t) = True"
| "is_stamp (Text t) = False"

record donation =
  created_at :: datetime_cell
  pints_donated :: real
  blood_group :: string

record monthly_row =
  h_created_at :: timestamp
  h_pints_donated :: real

record forecast_row =
  Date :: string
  Inventory :: int
  MonthlySupply :: int
  MonthlyDemand :: int

record sim_result =
  forecast_df :: "forecast_row list"
  avg_sup :: real
  avg_dem :: real

definition py_int :: "real \<Rightarrow> int" where
  \<comment> \<open>\<^verbatim>\<open>int(x)\<close> of a finite float: truncation towards zero. On an infinite or NaN float
      \<^verbatim>\<open>int\<close> raises; the reals have neither.\<close>
  "py_int x = (if 0 \<le> x then \<lfloor>x\<rfloor> else \<lceil>x\<rceil>)"

definition mean :: "real list \<Rightarrow> real" where
  \<comment> \<open>\<^verbatim>\<open>Series.mean()\<close>; the callers guard the empty series\<close>
  "mean xs = sum_list xs / real (length xs)"

subsection \<open>1. Prepare history (lines 161 and 162)\<close>

definition pd_to_datetime :: "datetime_cell \<Rightarrow> datetime_cell" where
  \<comment> \<open>on the cells of the model; on a text that is no date \<^verbatim>\<open>pd.to_datetime\<close> raises\<close>
  "pd_to_datetime c = Stamp (cell_time c)"

definition assign_created_at :: "donation list \<Rightarrow> donation list" where
  \<comment> \<open>line 161: \<^verbatim>\<open>df['created_at'] = pd.to_datetime(df['created_at'])\<close>, a write to the
      caller's frame\<close>
  "assign_created_at df = map (\<lambda>r. r\<lparr>created_at := pd_to_datetime (created_at r)\<rparr>) df"

definition row_month :: "donation \<Rightarrow> nat" where
  "row_month r = month_index (cell_time (created_at r))"

definition month_sum :: "donation list \<Rightarrow> nat \<Rightarrow> real" where
  \<comment> \<open>the sum of one bin, accumulated over the rows in frame order\<close>
  "month_sum df k = fold (\<lambda>r acc. if row_month r = k then acc + pints_donated r else acc) df 0"

definition resample_MS_sum :: "donation list \<Rightarrow> py_error + monthly_row list" where
  \<comment> \<open>\<^verbatim>\<open>df.set_index('created_at').resample('MS')['pints_donated'].sum().reset_index()\<close>:
      one bin per calendar month from the earliest to the latest index value, labelled by
      the month start, an empty bin summing to 0; no bins for an empty frame. pandas
      raises TypeError when the index is not a datetime index.\<close>
  "resample_MS_sum df =
     (if list_ex (\<lambda>r. \<not> is_stamp (created_at r)) df then Inl TypeError
      else
        (case map row_month df of
           [] \<Rightarrow> Inr []
         | k # ks \<Rightarrow>
             let first = fold min ks k; last_bin = fold max ks k
             in Inr (map (\<lambda>b. \<lparr>h_created_at = month_start b, h_pints_donated = month_sum df b\<rparr>)
                       [first..<Suc last_bin])))"

definition prepare_history :: "donation list \<Rightarrow> donation list \<times> (py_error + monthly_row list)" where
  \<comment> \<open>lines 161 and 162: the frame after the assignment, and the monthly series\<close>
  "prepare_history df = (let df' = assign_created_at df in (df', resample_MS_sum df'))"

subsection \<open>2. Detect trend and volatility (lines 165 to 183)\<close>

definition lookback :: nat where
  "lookback = 24"

definition recent_window :: "monthly_row list \<Rightarrow> monthly_row list" where
  "recent_window history =
     (if length history > lookback then drop (length history - lookback) history else history)"

definition np_polyfit1 :: "real list \<Rightarrow> real list \<Rightarrow> py_error + (real \<times> real)" where
  \<comment> \<open>\<^verbatim>\<open>np.polyfit(x, y, 1)\<close>: the least-squares line, as (slope, intercept). numpy raises
      TypeError on an empty or mismatched \<open>x\<close>; on a design without two distinct abscissae
      it warns and returns an ill-conditioned value, which the model does not represent.\<close>
  "np_polyfit1 xs ys =
     (if xs = [] \<or> length xs \<noteq> length ys then Inl TypeError
      else
        let n = real (length xs);
            xbar = sum_list xs / n;
            ybar = sum_list ys / n;
            sxx = sum_list (map (\<lambda>x. (x - xbar)\<^sup>2) xs);
            sxy = sum_list (map (\<lambda>(x, y). (x - xbar) * (y - ybar)) (zip xs ys))
        in if sxx = 0 then Inl RankWarning
           else Inr (sxy / sxx, ybar - (sxy / sxx) * xbar))"

definition pd_std :: "real list \<Rightarrow> py_error + real" where
  \<comment> \<open>\<^verbatim>\<open>Series.std()\<close>: the sample standard deviation (ddof = 1); NaN below two values\<close>
  "pd_std rs =
     (if length rs < 2 then Inl NaNResult
      else
        let n = real (length rs);
            rbar = sum_list rs / n
        in Inr (sqrt (sum_list (map (\<lambda>r. (r - rbar)\<^sup>2) rs) / (n - 1))))"

definition detect_trend :: "monthly_row list \<Rightarrow> py_error + (real \<times> real)" where
  \<comment> \<open>returns (slope, volatility); the intercept is local to the first branch\<close>
  "detect_trend history =
     (let recent = recent_window history;
          idx = map real [0..<length recent];
          ys = map h_pints_donated recent
      in if length recent > 1 then
           (case np_polyfit1 idx ys of
              Inl e \<Rightarrow> Inl e
            | Inr (slope, intercept) \<Rightarrow>
                let predicted_values = map (\<lambda>x. slope * x + intercept) idx;
                    residuals = map (\<lambda>(y, p). y - p) (zip ys predicted_values)
                in (case pd_std residuals of
                      Inl e \<Rightarrow> Inl e
                    | Inr volatility \<Rightarrow> Inr (slope, volatility)))
         else Inr (0, 10))"

subsection \<open>3. Forecast generation (lines 186 to 231)\<close>

definition demand_ratio :: real where
  "demand_ratio = 0.95"

text \<open>The local variables of one pass through the loop body.\<close>

record iteration =
  trend_component :: real
  random_bounce :: real
  base_supply :: real
  sim_supply :: real
  base_demand :: real
  demand_noise :: real
  sim_demand :: real
  current_inventory :: real   \<comment> \<open>after the update of line 221\<close>
  next_date :: timestamp

definition forecast_step ::
  "(nat \<Rightarrow> nat \<Rightarrow> real) \<Rightarrow> real \<Rightarrow> real \<Rightarrow> real \<Rightarrow> timestamp \<Rightarrow> real \<Rightarrow> real \<Rightarrow> real \<Rightarrow>
   int \<Rightarrow> real \<times> rng_state \<Rightarrow> py_error + (iteration \<times> real \<times> rng_state)" where
  \<comment> \<open>the loop body for month \<open>m\<close>, from the running inventory and the generator state\<close>
  "forecast_step gauss last_actual_supply slope volatility current_date
                 shock_pct boost_pct waste_pct m st =
     (let inventory = fst st; g = snd st;
          trend = last_actual_supply + slope * real_of_int m
      in (case np_random_normal gauss 0 (volatility * 0.3) g of
            Inl e \<Rightarrow> Inl e
          | Inr (bounce, g1) \<Rightarrow>
              (let base = max (trend + bounce) 0;
                   supply = base * (1 + boost_pct / 100) * (1 - waste_pct / 100);
                   bdemand = base * demand_ratio
               in (case np_random_normal gauss 0 (volatility * 0.15) g1 of
                     Inl e \<Rightarrow> Inl e
                   | Inr (noise, g2) \<Rightarrow>
                       (let demand = (bdemand + noise) * (1 + shock_pct / 100);
                            inventory' = inventory + (supply - demand)
                        in Inr (\<lparr>trend_component = trend, random_bounce = bounce,
                                  base_supply = base, sim_supply = supply,
                                  base_demand = bdemand, demand_noise = noise,
                                  sim_demand = demand, current_inventory = inventory',
                                  next_date = date_offset_months current_date m\<rparr>,
                                inventory', g2))))))"

fun for_loop ::
  "(int \<Rightarrow> 's \<Rightarrow> py_error + ('a \<times> 's)) \<Rightarrow> int list \<Rightarrow> 's \<Rightarrow> py_error + ('a list \<times> 's)" where
  "for_loop body [] st = Inr ([], st)"
| "for_loop body (m # ms) st =
     (case body m st of
        Inl e \<Rightarrow> Inl e
      | Inr (x, st') \<Rightarrow>
          (case for_loop body ms st' of
             Inl e \<Rightarrow> Inl e
           | Inr (xs, st'') \<Rightarrow> Inr (x # xs, st'')))"

definition to_forecast_row :: "iteration \<Rightarrow> forecast_row" where
  \<comment> \<open>the dictionary appended at lines 226 to 231\<close>
  "to_forecast_row it =
     \<lparr>Date = strftime_b_Y (next_date it),
      Inventory = py_int (current_inventory it),
      MonthlySupply = py_int (sim_supply it),
      MonthlyDemand = py_int (sim_demand it)\<rparr>"

definition last_actual_supply_of :: "monthly_row list \<Rightarrow> real" where
  "last_actual_supply_of history =
     (if history \<noteq> [] then h_pints_donated (last history) else 1000)"

definition current_date_of :: "world \<Rightarrow> monthly_row list \<Rightarrow> timestamp" where
  "current_date_of w history =
     (if history \<noteq> [] then h_created_at (last history) else clock w)"

definition run_iterations ::
  "(nat \<Rightarrow> nat \<Rightarrow> real) \<Rightarrow> world \<Rightarrow> donation list \<Rightarrow> int \<Rightarrow> real \<Rightarrow> real \<Rightarrow> real \<Rightarrow>
   py_error + (iteration list \<times> real \<times> rng_state)" where
  \<comment> \<open>lines 161 to 231: the passes of the loop, with the final inventory and generator\<close>
  "run_iterations gauss w df months_ahead shock_pct boost_pct waste_pct =
     (case snd (prepare_history df) of
        Inl e \<Rightarrow> Inl e
      | Inr history \<Rightarrow>
          (case detect_trend history of
             Inl e \<Rightarrow> Inl e
           | Inr (slope, volatility) \<Rightarrow>
               for_loop
                 (forecast_step gauss (last_actual_supply_of history) slope volatility
                    (current_date_of w history) shock_pct boost_pct waste_pct)
                 [1..months_ahead]
                 (last_actual_supply_of history, np_random_seed 42)))"

definition run_simulation ::
  "(nat \<Rightarrow> nat \<Rightarrow> real) \<Rightarrow> world \<Rightarrow> donation list \<Rightarrow> int \<Rightarrow> real \<Rightarrow> real \<Rightarrow> real \<Rightarrow>
   py_error + (sim_result \<times> donation list \<times> world)" where
  \<comment> \<open>returns the result, the caller's frame after the call and the world after the call\<close>
  "run_simulation gauss w df months_ahead shock_pct boost_pct waste_pct =
     (case run_iterations gauss w df months_ahead shock_pct boost_pct waste_pct of
        Inl e \<Rightarrow> Inl e
      | Inr (its, final_inventory, g) \<Rightarrow>
          let rows = map to_forecast_row its;
              mean_sup = (if rows \<noteq> [] then mean (map (\<lambda>r. real_of_int (MonthlySupply r)) rows) else 0);
              mean_dem = (if rows \<noteq> [] then mean (map (\<lambda>r. real_of_int (MonthlyDemand r)) rows) else 0)
          in Inr (\<lparr>forecast_df = rows, avg_sup = mean_sup, avg_dem = mean_dem\<rparr>,
                  fst (prepare_history df),
                  w\<lparr>rng := g\<rparr>))"

subsection \<open>Derived metrics\<close>

datatype py_float = Finite real | PosInf

definition py_truediv :: "real \<Rightarrow> real \<Rightarrow> py_error + real" where
  "py_truediv a b = (if b = 0 then Inl ZeroDivisionError else Inr (a / b))"

definition days_of_supply :: "real \<Rightarrow> real \<Rightarrow> py_error + py_float" where
  \<comment> \<open>line 282\<close>
  "days_of_supply final_inventory monthly_dem =
     (if monthly_dem > 0 then
        (case py_truediv monthly_dem 30 of
           Inl e \<Rightarrow> Inl e
         | Inr daily \<Rightarrow>
             (case py_truediv final_inventory daily of
                Inl e \<Rightarrow> Inl e
              | Inr d \<Rightarrow> Inr (Finite d)))
      else Inr PosInf)"

definition coverage :: "int \<Rightarrow> int \<Rightarrow> py_error + real" where
  \<comment> \<open>line 737\<close>
  "coverage t_sup t_dem =
     (if t_dem > 0 then py_truediv (real_of_int t_sup) (real_of_int t_dem) else Inr 1.0)"

definition coverage_ratio :: "real \<Rightarrow> real \<Rightarrow> py_error + real" where
  \<comment> \<open>line 821\<close>
  "coverage_ratio monthly_sup monthly_dem =
     (if monthly_dem > 0 then
        (case py_truediv monthly_sup monthly_dem of
           Inl e \<Rightarrow> Inl e
         | Inr q \<Rightarrow> Inr (q * 100))
      else Inr 0)"

subsection \<open>Auxiliary notions for the statements\<close>

text \<open>
  The calendar months from the earliest to the latest row of a frame, and the monthly
  series the frame aggregates to. Both are specification-side notions: the code's own
  aggregation is \<open>prepare_history\<close>.
\<close>

definition bins :: "donation list \<Rightarrow> nat list" where
  "bins df = [Min (row_month ` set df)..<Suc (Max (row_month ` set df))]"

definition monthly_series :: "donation list \<Rightarrow> monthly_row list" where
  "monthly_series df =
     (if df = [] then []
      else map (\<lambda>b. \<lparr>h_created_at = month_start b, h_pints_donated = month_sum df b\<rparr>) (bins df))"

definition result_of ::
  "py_error + (sim_result \<times> donation list \<times> world) \<Rightarrow> py_error + sim_result" where
  \<comment> \<open>what the caller of \<^verbatim>\<open>run_simulation\<close> receives\<close>
  "result_of x = (case x of Inl e \<Rightarrow> Inl e | Inr (r, df', w') \<Rightarrow> Inr r)"

subsection \<open>Concrete inputs\<close>

definition no_noise :: "nat \<Rightarrow> nat \<Rightarrow> real" where
  "no_noise s k = 0"

definition low_noise :: "nat \<Rightarrow> nat \<Rightarrow> real" where
  "low_noise s k = - 1"

definition mid_jan_2024 :: timestamp where
  "mid_jan_2024 = \<lparr>ts_year = 2024, ts_month = Jan, ts_day = 15\<rparr>"

definition mid_feb_2024 :: timestamp where
  "mid_feb_2024 = \<lparr>ts_year = 2024, ts_month = Feb, ts_day = 15\<rparr>"

definition some_world :: world where
  "some_world = \<lparr>rng = \<lparr>rng_seed = 7, rng_pos = 3\<rparr>, clock = mid_jan_2024\<rparr>"

definition later_world :: world where
  "later_world = \<lparr>rng = \<lparr>rng_seed = 7, rng_pos = 3\<rparr>, clock = mid_feb_2024\<rparr>"

definition one_donation :: "donation list" where
  "one_donation = [\<lparr>created_at = Text mid_jan_2024, pints_donated = 10, blood_group = ''A+''\<rparr>]"

definition zero_donation :: "donation list" where
  "zero_donation = [\<lparr>created_at = Stamp mid_jan_2024, pints_donated = 0, blood_group = ''A+''\<rparr>]"

definition flat_donations :: "donation list" where
  "flat_donations =
     [\<lparr>created_at = Stamp mid_jan_2024, pints_donated = 10, blood_group = ''A+''\<rparr>,
      \<lparr>created_at = Stamp mid_feb_2024, pints_donated = 10, blood_group = ''O-''\<rparr>]"

definition falling_donations :: "donation list" where
  "falling_donations =
     [\<lparr>created_at = Stamp mid_jan_2024, pints_donated = 300, blood_group = ''A+''\<rparr>,
      \<lparr>created_at = Stamp mid_feb_2024, pints_donated = 100, blood_group = ''O-''\<rparr>]"

definition spec_example :: "donation list" where
  \<comment> \<open>the records (Jan, 10), (Jan, 5), (Mar, 7)\<close>
  "spec_example =
     [\<lparr>created_at = Stamp \<lparr>ts_year = 2024, ts_month = Jan, ts_day = 3\<rparr>,
        pints_donated = 10, blood_group = ''A+''\<rparr>,
      \<lparr>created_at = Stamp \<lparr>ts_year = 2024, ts_month = Mar, ts_day = 9\<rparr>,
        pints_donated = 7, blood_group = ''B+''\<rparr>,
      \<lparr>created_at = Stamp \<lparr>ts_year = 2024, ts_month = Jan, ts_day = 28\<rparr>,
        pints_donated = 5, blood_group = ''O-''\<rparr>]"

text \<open>
  The balance equation read on the emitted rows, with \<open>s0\<close> the last historical total.
\<close>

definition emitted_balance :: "real \<Rightarrow> forecast_row list \<Rightarrow> bool" where
  "emitted_balance s0 rows =
     (\<forall>i<length rows.
        real_of_int (Inventory (rows ! i)) =
          (if i = 0 then s0 else real_of_int (Inventory (rows ! (i - 1))))
            + real_of_int (MonthlySupply (rows ! i)) - real_of_int (MonthlyDemand (rows ! i)))"

text \<open>The passes of the loop of a run (none if the run raised).\<close>

definition steps :: "py_error + (iteration list \<times> real \<times> rng_state) \<Rightarrow> iteration list" where
  "steps x = (case x of Inl e \<Rightarrow> [] | Inr (its, c, g) \<Rightarrow> its)"

definition reseeded_world :: world where
  "reseeded_world =
     \<lparr>rng = \<lparr>rng_seed = 1, rng_pos = 5\<rparr>, clock = \<lparr>ts_year = 2024, ts_month = Jan, ts_day = 31\<rparr>\<rparr>"

section \<open>Auxiliary lemmas\<close>

subsection \<open>Truncation, the fit and the volatility\<close>

lemma py_int_close: "\<bar>real_of_int (py_int x) - x\<bar> < 1"
  unfolding py_int_def by (auto; linarith)

lemma py_int_nonneg: "0 \<le> x \<Longrightarrow> 0 \<le> py_int x"
  by (simp add: py_int_def)

lemma sxx_pos:
  assumes "2 \<le> n"
  shows "(\<Sum>x\<leftarrow>map real [0..<n]. (x - c)\<^sup>2) \<noteq> 0"
proof
  assume z: "(\<Sum>x\<leftarrow>map real [0..<n]. (x - c)\<^sup>2) = 0"
  have "\<forall>v \<in> set (map (\<lambda>x. (x - c)\<^sup>2) (map real [0..<n])). v = 0"
    using z by (subst (asm) sum_list_nonneg_eq_0_iff) auto
  then have a: "\<forall>k < n. real k = c" by auto
  have "real 0 = c" "real 1 = c" using a assms by (metis less_le_trans zero_less_numeral, metis less_le_trans one_less_numeral_iff semiring_norm(76))
  then show False by simp
qed

lemma np_polyfit1_Inl:
  assumes "np_polyfit1 (map real [0..<n]) ys = Inl e" "length ys = n"
  shows "n < 2"
proof (rule ccontr)
  assume "\<not> n < 2"
  then have "2 \<le> n" by simp
  from sxx_pos[OF this] assms show False
    by (simp add: np_polyfit1_def Let_def split: if_splits)
qed

lemma pd_std_Inl: "pd_std rs = Inl e \<Longrightarrow> length rs < 2"
  by (simp add: pd_std_def Let_def split: if_splits)

lemma pd_std_Inr_nonneg: "pd_std rs = Inr v \<Longrightarrow> 0 \<le> v"
  by (auto simp: pd_std_def Let_def split: if_splits intro!: divide_nonneg_nonneg sum_list_nonneg)

lemma detect_trend_ok: "\<exists>slope volatility. detect_trend history = Inr (slope, volatility) \<and> 0 \<le> volatility"
proof (cases "1 < length (recent_window history)")
  case True
  define recent where "recent = recent_window history"
  define n where "n = length recent"
  have n2: "1 < n" using True by (simp add: n_def recent_def)
  show ?thesis
  proof (cases "np_polyfit1 (map real [0..<n]) (map h_pints_donated recent)")
    case (Inl e)
    from np_polyfit1_Inl[OF this] n2 show ?thesis by (simp add: n_def)
  next
    case (Inr p)
    obtain s i where p: "p = (s, i)" by (cases p)
    define res where "res = map (\<lambda>(y, p). y - p)
       (zip (map h_pints_donated recent) (map (\<lambda>x. s * x + i) (map real [0..<n])))"
    have len: "length res = n" by (simp add: res_def n_def)
    show ?thesis
    proof (cases "pd_std res")
      case (Inl e)
      from pd_std_Inl[OF this] len n2 show ?thesis by simp
    next
      case (Inr v)
      have "detect_trend history = Inr (s, v)"
        unfolding detect_trend_def Let_def recent_def[symmetric] n_def[symmetric]
        using n2 \<open>np_polyfit1 _ _ = Inr p\<close> p Inr unfolding res_def by simp
      with pd_std_Inr_nonneg[OF Inr] show ?thesis by blast
    qed
  qed
next
  case False
  then show ?thesis by (simp add: detect_trend_def Let_def)
qed

lemma detect_trend_degenerate:
  "length (recent_window history) \<le> 1 \<Longrightarrow> detect_trend history = Inr (0, 10)"
  by (simp add: detect_trend_def Let_def)

subsection \<open>The loop\<close>

lemma forecast_step_Inr:
  assumes "0 \<le> v"
  shows "forecast_step gauss las sl v cd sh bo wa m (c, g) =
     Inr (\<lparr>trend_component = las + sl * real_of_int m,
           random_bounce = v * 0.3 * gauss (rng_seed g) (rng_pos g),
           base_supply = max (las + sl * real_of_int m + v * 0.3 * gauss (rng_seed g) (rng_pos g)) 0,
           sim_supply = max (las + sl * real_of_int m + v * 0.3 * gauss (rng_seed g) (rng_pos g)) 0
                          * (1 + bo / 100) * (1 - wa / 100),
           base_demand = max (las + sl * real_of_int m + v * 0.3 * gauss (rng_seed g) (rng_pos g)) 0
                          * demand_ratio,
           demand_noise = v * 0.15 * gauss (rng_seed g) (rng_pos g + 1),
           sim_demand = (max (las + sl * real_of_int m + v * 0.3 * gauss (rng_seed g) (rng_pos g)) 0
                           * demand_ratio + v * 0.15 * gauss (rng_seed g) (rng_pos g + 1))
                          * (1 + sh / 100),
           current_inventory = c + (max (las + sl * real_of_int m + v * 0.3 * gauss (rng_seed g) (rng_pos g)) 0
                          * (1 + bo / 100) * (1 - wa / 100)
                 - (max (las + sl * real_of_int m + v * 0.3 * gauss (rng_seed g) (rng_pos g)) 0
                           * demand_ratio + v * 0.15 * gauss (rng_seed g) (rng_pos g + 1))
                          * (1 + sh / 100)),
           next_date = date_offset_months cd m\<rparr>,
          c + (max (las + sl * real_of_int m + v * 0.3 * gauss (rng_seed g) (rng_pos g)) 0
                          * (1 + bo / 100) * (1 - wa / 100)
                 - (max (las + sl * real_of_int m + v * 0.3 * gauss (rng_seed g) (rng_pos g)) 0
                           * demand_ratio + v * 0.15 * gauss (rng_seed g) (rng_pos g + 1))
                          * (1 + sh / 100)),
          g\<lparr>rng_pos := rng_pos g + 2\<rparr>)"
proof -
  have a: "\<not> v * 0.3 < 0" "\<not> v * 0.15 < 0" using assms by (simp_all add: not_less)
  show ?thesis
    unfolding forecast_step_def np_random_normal_def Let_def using a by simp
qed

lemma forecast_step_facts:
  assumes "0 \<le> v"
    and "forecast_step gauss las sl v cd sh bo wa m (c, g) = Inr (it, c', g')"
  shows "trend_component it = las + sl * real_of_int m"
    and "random_bounce it = v * 0.3 * gauss (rng_seed g) (rng_pos g)"
    and "base_supply it = max (trend_component it + random_bounce it) 0"
    and "sim_supply it = base_supply it * (1 + bo / 100) * (1 - wa / 100)"
    and "base_demand it = base_supply it * demand_ratio"
    and "demand_noise it = v * 0.15 * gauss (rng_seed g) (rng_pos g + 1)"
    and "sim_demand it = (base_demand it + demand_noise it) * (1 + sh / 100)"
    and "current_inventory it = c + (sim_supply it - sim_demand it)"
    and "next_date it = date_offset_months cd m"
    and "c' = current_inventory it"
    and "g' = g\<lparr>rng_pos := rng_pos g + 2\<rparr>"
  using assms(2) unfolding forecast_step_Inr[OF assms(1)] by auto

lemma for_loop_ConsE:
  assumes "for_loop body (m # ms) st = Inr (xs, st'')"
  obtains x d h xs' where "body m st = Inr (x, d, h)"
    and "for_loop body ms (d, h) = Inr (xs', st'')" and "xs = x # xs'"
  using assms by (auto split: sum.splits)

lemma for_loop_length:
  "for_loop body ms st = Inr (xs, st') \<Longrightarrow> length xs = length ms"
  by (induction ms arbitrary: st xs) (auto split: sum.splits)

lemma for_loop_total:
  assumes "\<And>m st. \<exists>x st'. body m st = Inr (x, st')"
  shows "\<exists>xs st'. for_loop body ms st = Inr (xs, st')"
proof (induction ms arbitrary: st)
  case Nil
  show ?case by simp
next
  case (Cons m ms)
  obtain x st1 where a: "body m st = Inr (x, st1)" using assms by blast
  obtain xs st2 where b: "for_loop body ms st1 = Inr (xs, st2)" using Cons by blast
  show ?case using a b by simp
qed

lemma for_loop_rel:
  assumes step: "\<And>m c1 c2 g. S c1 c2 \<Longrightarrow>
      \<exists>it1 it2 c1' c2' g'. body1 m (c1, g) = Inr (it1, c1', g') \<and> body2 m (c2, g) = Inr (it2, c2', g')
         \<and> R it1 it2 \<and> S c1' c2'"
    and "S c1 c2"
  shows "\<exists>its1 its2 c1' c2' g'. for_loop body1 ms (c1, g) = Inr (its1, c1', g')
      \<and> for_loop body2 ms (c2, g) = Inr (its2, c2', g') \<and> list_all2 R its1 its2 \<and> S c1' c2'"
  using assms(2)
proof (induction ms arbitrary: c1 c2 g)
  case Nil
  then show ?case by simp
next
  case (Cons m ms)
  obtain it1 it2 d1 d2 h where a: "body1 m (c1, g) = Inr (it1, d1, h)" "body2 m (c2, g) = Inr (it2, d2, h)"
      "R it1 it2" "S d1 d2"
    using step[OF Cons.prems] by blast
  obtain its1 its2 e1 e2 k where b: "for_loop body1 ms (d1, h) = Inr (its1, e1, k)"
      "for_loop body2 ms (d2, h) = Inr (its2, e2, k)" "list_all2 R its1 its2" "S e1 e2"
    using Cons.IH[OF a(4)] by blast
  show ?case using a b by simp
qed

lemma for_loop_all:
  assumes "\<And>m c g x c' g'. body m (c, g) = Inr (x, c', g') \<Longrightarrow> P m x"
    and "for_loop body ms st = Inr (xs, st')"
  shows "list_all2 P ms xs"
  using assms(2)
proof (induction ms arbitrary: st xs)
  case Nil
  then show ?case by simp
next
  case (Cons m ms)
  from Cons.prems obtain x d h xs' where a: "body m st = Inr (x, d, h)"
    and b: "for_loop body ms (d, h) = Inr (xs', st')" and c: "xs = x # xs'"
    by (rule for_loop_ConsE)
  have "P m x" using assms(1)[of m "fst st" "snd st"] a by simp
  then show ?case using Cons.IH[OF b] c by simp
qed

lemma forecast_loop_balance:
  assumes "0 \<le> v"
    and "for_loop (forecast_step gauss las sl v cd sh bo wa) ms (c, g) = Inr (its, c', g')"
  shows "\<forall>i<length its. current_inventory (its ! i) =
           (if i = 0 then c else current_inventory (its ! (i - 1)))
             + (sim_supply (its ! i) - sim_demand (its ! i))"
  using assms(2)
proof (induction ms arbitrary: c g its)
  case Nil
  then show ?case by simp
next
  case (Cons m ms)
  from Cons.prems obtain it d h its' where
    a: "forecast_step gauss las sl v cd sh bo wa m (c, g) = Inr (it, d, h)"
    and b: "for_loop (forecast_step gauss las sl v cd sh bo wa) ms (d, h) = Inr (its', c', g')"
    and c: "its = it # its'"
    by (rule for_loop_ConsE)
  note f = forecast_step_facts[OF assms(1) a]
  note ih = Cons.IH[OF b]
  show ?case
  proof (intro allI impI)
    fix i assume i: "i < length its"
    show "current_inventory (its ! i) =
           (if i = 0 then c else current_inventory (its ! (i - 1)))
             + (sim_supply (its ! i) - sim_demand (its ! i))"
    proof (cases i)
      case 0
      then show ?thesis using f(8) c by simp
    next
      case (Suc j)
      then have "j < length its'" using i c by simp
      with ih have "current_inventory (its' ! j) =
           (if j = 0 then d else current_inventory (its' ! (j - 1)))
             + (sim_supply (its' ! j) - sim_demand (its' ! j))" by blast
      then show ?thesis using Suc c f(10) by (cases j) simp_all
    qed
  qed
qed

lemma forecast_loop_final:
  assumes "0 \<le> v"
    and "for_loop (forecast_step gauss las sl v cd sh bo wa) ms (c, g) = Inr (its, c', g')"
  shows "g' = g\<lparr>rng_pos := rng_pos g + 2 * length ms\<rparr>"
    and "c' = (if its = [] then c else current_inventory (last its))"
  using assms(2)
proof (induction ms arbitrary: c g its)
  case Nil
  { case 1 then show ?case by simp }
  { case 2 then show ?case by simp }
next
  case (Cons m ms)
  { case 1
    from 1 obtain it d h its' where
      a: "forecast_step gauss las sl v cd sh bo wa m (c, g) = Inr (it, d, h)"
      and b: "for_loop (forecast_step gauss las sl v cd sh bo wa) ms (d, h) = Inr (its', c', g')"
      and c: "its = it # its'"
      by (rule for_loop_ConsE)
    from Cons.IH(1)[OF b] forecast_step_facts(11)[OF assms(1) a] show ?case by simp }
  { case 2
    from 2 obtain it d h its' where
      a: "forecast_step gauss las sl v cd sh bo wa m (c, g) = Inr (it, d, h)"
      and b: "for_loop (forecast_step gauss las sl v cd sh bo wa) ms (d, h) = Inr (its', c', g')"
      and c: "its = it # its'"
      by (rule for_loop_ConsE)
    from Cons.IH(2)[OF b] forecast_step_facts(10)[OF assms(1) a] c show ?case by simp }
qed

subsection \<open>The aggregation\<close>

lemma assign_all_stamps: "\<not> list_ex (\<lambda>r. \<not> is_stamp (created_at r)) (assign_created_at df)"
  by (simp add: assign_created_at_def pd_to_datetime_def list_ex_iff)

lemma row_month_assign: "map row_month (assign_created_at df) = map row_month df"
  by (simp add: assign_created_at_def pd_to_datetime_def row_month_def)

lemma pints_assign: "map pints_donated (assign_created_at df) = map pints_donated df"
  by (simp add: assign_created_at_def)

lemma assign_stamps_id:
  "list_all (\<lambda>r. is_stamp (created_at r)) df \<Longrightarrow> assign_created_at df = df"
proof (induction df)
  case Nil
  show ?case by (simp add: assign_created_at_def)
next
  case (Cons r df)
  then have "is_stamp (created_at r)" by simp
  then have "pd_to_datetime (created_at r) = created_at r"
    by (cases "created_at r") (simp_all add: pd_to_datetime_def)
  then show ?case using Cons by (simp add: assign_created_at_def)
qed

lemma fold_min_Min: "fold min ks (k::nat) = Min (set (k # ks))"
  by (rule Min.set_eq_fold[symmetric])

lemma fold_max_Max: "fold max ks (k::nat) = Max (set (k # ks))"
  by (rule Max.set_eq_fold[symmetric])

lemma fold_cond_sum:
  "fold (\<lambda>r acc. if P r then acc + f r else acc) df (a::real) = a + sum_list (map f (filter P df))"
  by (induction df arbitrary: a) simp_all

lemma month_sum_eq: "month_sum df k = sum_list (map pints_donated (filter (\<lambda>r. row_month r = k) df))"
  by (simp add: month_sum_def fold_cond_sum)

lemma month_sum_assign: "month_sum (assign_created_at df) k = month_sum df k"
proof -
  have "map pints_donated (filter (\<lambda>r. row_month r = k) (assign_created_at df))
      = map pints_donated (filter (\<lambda>r. row_month r = k) df)"
    by (induction df) (simp_all add: assign_created_at_def row_month_def pd_to_datetime_def)
  then show ?thesis by (simp add: month_sum_eq)
qed

lemma month_number_nth: "j < 12 \<Longrightarrow> month_number (month_list ! j) = j"
proof -
  assume "j < 12"
  then have "j = 0 \<or> j = 1 \<or> j = 2 \<or> j = 3 \<or> j = 4 \<or> j = 5 \<or> j = 6
      \<or> j = 7 \<or> j = 8 \<or> j = 9 \<or> j = 10 \<or> j = 11" by arith
  then show ?thesis by (auto simp: month_list_def)
qed

lemma month_index_month_start: "month_index (month_start k) = k"
  by (simp add: month_index_def month_start_def month_number_nth)

lemma prepare_history_eq:
  "snd (prepare_history df) =
     Inr (if df = [] then []
          else map (\<lambda>b. \<lparr>h_created_at = month_start b, h_pints_donated = month_sum df b\<rparr>) (bins df))"
proof (cases df)
  case Nil
  then show ?thesis
    by (simp add: prepare_history_def resample_MS_sum_def assign_created_at_def)
next
  case (Cons r rs)
  have m: "map row_month (assign_created_at df) = row_month r # map row_month rs"
    using Cons by (simp add: row_month_assign)
  have s: "set (row_month r # map row_month rs) = row_month ` set df" using Cons by simp
  have "resample_MS_sum (assign_created_at df) =
      Inr (map (\<lambda>b. \<lparr>h_created_at = month_start b, h_pints_donated = month_sum (assign_created_at df) b\<rparr>)
             [Min (row_month ` set df)..<Suc (Max (row_month ` set df))])"
    unfolding resample_MS_sum_def m list.case Let_def fold_min_Min fold_max_Max s
    using assign_all_stamps[of df] by (simp only: if_False)
  then show ?thesis
    using Cons by (simp add: prepare_history_def month_sum_assign bins_def del: upt_Suc)
qed

lemma bins_nonempty: "df \<noteq> [] \<Longrightarrow> bins df \<noteq> []"
proof -
  assume "df \<noteq> []"
  then have "row_month ` set df \<noteq> {}" "finite (row_month ` set df)" by simp_all
  then have "Min (row_month ` set df) \<le> Max (row_month ` set df)" by simp
  then show ?thesis by (simp add: bins_def)
qed

lemma fst_prepare_history: "fst (prepare_history df) = assign_created_at df"
  by (simp add: prepare_history_def Let_def)

subsection \<open>The simulation returns\<close>

lemma prepare_history_series: "snd (prepare_history df) = Inr (monthly_series df)"
  by (simp add: prepare_history_eq monthly_series_def)

lemma monthly_series_empty_iff: "monthly_series df = [] \<longleftrightarrow> df = []"
  using bins_nonempty[of df] by (simp add: monthly_series_def)

lemma run_iterations_unfold:
  assumes "detect_trend (monthly_series df) = Inr (s, v)"
  shows "run_iterations gauss w df n sh bo wa =
     for_loop (forecast_step gauss (last_actual_supply_of (monthly_series df)) s v
                 (current_date_of w (monthly_series df)) sh bo wa)
       [1..n] (last_actual_supply_of (monthly_series df), np_random_seed 42)"
  using assms by (simp add: run_iterations_def prepare_history_series)

lemma forecast_loop_total:
  assumes "0 \<le> v"
  shows "\<exists>its c' g'. for_loop (forecast_step gauss las sl v cd sh bo wa) ms (c, g) = Inr (its, c', g')"
proof -
  have "\<And>m st. \<exists>x st'. forecast_step gauss las sl v cd sh bo wa m st = Inr (x, st')"
  proof -
    fix m :: int and st :: "real \<times> rng_state"
    obtain c g where "st = (c, g)" by (cases st)
    then show "\<exists>x st'. forecast_step gauss las sl v cd sh bo wa m st = Inr (x, st')"
      using forecast_step_Inr[OF assms] by simp
  qed
  from for_loop_total[of "forecast_step gauss las sl v cd sh bo wa", OF this, of ms "(c, g)"]
  show ?thesis by auto
qed

lemma run_iterations_ok:
  obtains s v its c g where "detect_trend (monthly_series df) = Inr (s, v)" and "0 \<le> v"
    and "run_iterations gauss w df n sh bo wa = Inr (its, c, g)"
    and "for_loop (forecast_step gauss (last_actual_supply_of (monthly_series df)) s v
                 (current_date_of w (monthly_series df)) sh bo wa)
           [1..n] (last_actual_supply_of (monthly_series df), np_random_seed 42) = Inr (its, c, g)"
proof -
  obtain s v where d: "detect_trend (monthly_series df) = Inr (s, v)" "0 \<le> v"
    using detect_trend_ok by blast
  obtain its c g where l: "for_loop (forecast_step gauss (last_actual_supply_of (monthly_series df)) s v
                 (current_date_of w (monthly_series df)) sh bo wa)
           [1..n] (last_actual_supply_of (monthly_series df), np_random_seed 42) = Inr (its, c, g)"
    using forecast_loop_total[OF d(2)] by blast
  show ?thesis using that[OF d _ l] l run_iterations_unfold[OF d(1)] by simp
qed

lemma run_simulation_of_iterations:
  assumes "run_iterations gauss w df n sh bo wa = Inr (its, c, g)"
  shows "run_simulation gauss w df n sh bo wa =
     Inr (\<lparr>forecast_df = map to_forecast_row its,
           avg_sup = (if its \<noteq> [] then mean (map (\<lambda>r. real_of_int (MonthlySupply r)) (map to_forecast_row its)) else 0),
           avg_dem = (if its \<noteq> [] then mean (map (\<lambda>r. real_of_int (MonthlyDemand r)) (map to_forecast_row its)) else 0)\<rparr>,
          assign_created_at df, w\<lparr>rng := g\<rparr>)"
  using assms by (simp add: run_simulation_def Let_def fst_prepare_history)

lemma length_upto_1: "length [1..n] = nat n"
  by simp

lemma run_iterations_length:
  assumes "run_iterations gauss w df n sh bo wa = Inr (its, c, g)"
  shows "length its = nat n"
proof -
  obtain s v where d: "detect_trend (monthly_series df) = Inr (s, v)"
    using detect_trend_ok by blast
  from assms[unfolded run_iterations_unfold[OF d]] for_loop_length show ?thesis by fastforce
qed

subsection \<open>The steps of a run\<close>

lemma steps_Inr: "steps (Inr (its, c, g)) = its"
  by (simp add: steps_def)

lemma length_steps: "length (steps (run_iterations gauss w df n sh bo wa)) = nat n"
proof -
  obtain s v its c g where "run_iterations gauss w df n sh bo wa = Inr (its, c, g)"
    by (rule run_iterations_ok)
  then show ?thesis using run_iterations_length by (simp add: steps_def)
qed

lemma forecast_loop_policy:
  assumes v: "0 \<le> v"
  shows "\<exists>its1 its2 c1' c2' g'.
      for_loop (forecast_step gauss las sl v cd sh bo wa) ms (c1, g) = Inr (its1, c1', g')
    \<and> for_loop (forecast_step gauss las sl v cd sh' bo' wa') ms (c2, g) = Inr (its2, c2', g')
    \<and> list_all2 (\<lambda>it1 it2.
          base_supply it2 = base_supply it1 \<and> base_demand it2 = base_demand it1
        \<and> demand_noise it2 = demand_noise it1 \<and> 0 \<le> base_supply it1
        \<and> sim_supply it1 = base_supply it1 * (1 + bo / 100) * (1 - wa / 100)
        \<and> sim_supply it2 = base_supply it1 * (1 + bo' / 100) * (1 - wa' / 100)
        \<and> sim_demand it1 = (base_demand it1 + demand_noise it1) * (1 + sh / 100)
        \<and> sim_demand it2 = (base_demand it1 + demand_noise it1) * (1 + sh' / 100)) its1 its2
    \<and> True"
proof (rule for_loop_rel[where S = "\<lambda>_ _. True"])
  fix m :: int and c1 c2 :: real and g :: rng_state
  show "\<exists>it1 it2 c1' c2' g'.
      forecast_step gauss las sl v cd sh bo wa m (c1, g) = Inr (it1, c1', g')
    \<and> forecast_step gauss las sl v cd sh' bo' wa' m (c2, g) = Inr (it2, c2', g')
    \<and> (base_supply it2 = base_supply it1 \<and> base_demand it2 = base_demand it1
        \<and> demand_noise it2 = demand_noise it1 \<and> 0 \<le> base_supply it1
        \<and> sim_supply it1 = base_supply it1 * (1 + bo / 100) * (1 - wa / 100)
        \<and> sim_supply it2 = base_supply it1 * (1 + bo' / 100) * (1 - wa' / 100)
        \<and> sim_demand it1 = (base_demand it1 + demand_noise it1) * (1 + sh / 100)
        \<and> sim_demand it2 = (base_demand it1 + demand_noise it1) * (1 + sh' / 100))
    \<and> True"
    unfolding forecast_step_Inr[OF v] by simp
qed simp

lemma steps_policy:
  fixes gauss :: "nat \<Rightarrow> nat \<Rightarrow> real" and w :: world and df :: "donation list" and n :: int
    and sh bo wa sh' bo' wa' :: real
  assumes "i < nat n"
  defines "its \<equiv> steps (run_iterations gauss w df n sh bo wa)"
    and "its' \<equiv> steps (run_iterations gauss w df n sh' bo' wa')"
  shows "base_supply (its' ! i) = base_supply (its ! i)
    \<and> base_demand (its' ! i) = base_demand (its ! i)
    \<and> demand_noise (its' ! i) = demand_noise (its ! i)
    \<and> 0 \<le> base_supply (its ! i)
    \<and> sim_supply (its ! i) = base_supply (its ! i) * (1 + bo / 100) * (1 - wa / 100)
    \<and> sim_supply (its' ! i) = base_supply (its ! i) * (1 + bo' / 100) * (1 - wa' / 100)
    \<and> sim_demand (its ! i) = (base_demand (its ! i) + demand_noise (its ! i)) * (1 + sh / 100)
    \<and> sim_demand (its' ! i) = (base_demand (its ! i) + demand_noise (its ! i)) * (1 + sh' / 100)"
proof -
  obtain s v where d: "detect_trend (monthly_series df) = Inr (s, v)" and v: "0 \<le> v"
    using detect_trend_ok by blast
  let ?las = "last_actual_supply_of (monthly_series df)"
  let ?cd = "current_date_of w (monthly_series df)"
  from forecast_loop_policy[OF v, of gauss ?las s ?cd sh bo wa "[1..n]" ?las "np_random_seed 42" sh' bo' wa' ?las]
  obtain its1 its2 c1' c2' g' where
    a: "for_loop (forecast_step gauss ?las s v ?cd sh bo wa) [1..n] (?las, np_random_seed 42) = Inr (its1, c1', g')"
    and b: "for_loop (forecast_step gauss ?las s v ?cd sh' bo' wa') [1..n] (?las, np_random_seed 42) = Inr (its2, c2', g')"
    and r: "list_all2 (\<lambda>it1 it2.
          base_supply it2 = base_supply it1 \<and> base_demand it2 = base_demand it1
        \<and> demand_noise it2 = demand_noise it1 \<and> 0 \<le> base_supply it1
        \<and> sim_supply it1 = base_supply it1 * (1 + bo / 100) * (1 - wa / 100)
        \<and> sim_supply it2 = base_supply it1 * (1 + bo' / 100) * (1 - wa' / 100)
        \<and> sim_demand it1 = (base_demand it1 + demand_noise it1) * (1 + sh / 100)
        \<and> sim_demand it2 = (base_demand it1 + demand_noise it1) * (1 + sh' / 100)) its1 its2"
    by blast
  have e1: "its = its1" by (simp add: its_def run_iterations_unfold[OF d] a steps_def)
  have e2: "its' = its2" by (simp add: its'_def run_iterations_unfold[OF d] b steps_def)
  have "length its1 = nat n" using for_loop_length[OF a] by simp
  with assms(1) have i: "i < length its1" by simp
  note f = list_all2_nthD[OF r i]
  show ?thesis
    using f unfolding e1 e2 by simp
qed


subsection \<open>Arithmetic of the policy factors\<close>

lemma scale_strict: "0 < (x::real) \<Longrightarrow> 0 < k \<Longrightarrow> a < b \<Longrightarrow> x * (1 + a / 100) * k < x * (1 + b / 100) * k"
  by (intro mult_strict_right_mono mult_strict_left_mono) simp_all

lemma scale_weak: "0 \<le> (x::real) \<Longrightarrow> 0 \<le> k \<Longrightarrow> a < b \<Longrightarrow> x * (1 + a / 100) * k \<le> x * (1 + b / 100) * k"
  by (intro mult_right_mono mult_left_mono) simp_all

lemma waste_strict: "0 < (x::real) \<Longrightarrow> 0 < k \<Longrightarrow> a < b \<Longrightarrow> x * k * (1 - b / 100) < x * k * (1 - a / 100)"
  by (intro mult_strict_left_mono mult_pos_pos) simp_all

lemma waste_weak: "0 \<le> (x::real) \<Longrightarrow> 0 \<le> k \<Longrightarrow> a < b \<Longrightarrow> x * k * (1 - b / 100) \<le> x * k * (1 - a / 100)"
  by (intro mult_left_mono mult_nonneg_nonneg) simp_all

lemma shock_strict: "0 < (y::real) \<Longrightarrow> a < b \<Longrightarrow> y * (1 + a / 100) < y * (1 + b / 100)"
  by (intro mult_strict_left_mono) simp_all

lemma shock_weak: "0 \<le> (y::real) \<Longrightarrow> a < b \<Longrightarrow> y * (1 + a / 100) \<le> y * (1 + b / 100)"
  by (intro mult_left_mono) simp_all

subsection \<open>The result and the sign of supply\<close>

lemma result_of_run:
  "\<exists>r. result_of (run_simulation gauss w df n sh bo wa) = Inr r
     \<and> forecast_df r = map to_forecast_row (steps (run_iterations gauss w df n sh bo wa))"
proof -
  obtain s v its c g where ri: "run_iterations gauss w df n sh bo wa = Inr (its, c, g)"
    by (rule run_iterations_ok)
  show ?thesis
    by (simp add: run_simulation_of_iterations[OF ri] result_of_def ri steps_def)
qed

lemma steps_base_nonneg:
  assumes "it \<in> set (steps (run_iterations gauss w df n sh bo wa))"
  shows "0 \<le> base_supply it"
proof -
  let ?its = "steps (run_iterations gauss w df n sh bo wa)"
  from assms obtain i where i: "i < length ?its" and it: "it = ?its ! i"
    by (auto simp: in_set_conv_nth)
  from i have i': "i < nat n" by (simp add: length_steps)
  from steps_policy[OF i', where gauss = gauss and w = w and df = df and sh = sh and bo = bo
      and wa = wa and sh' = sh and bo' = bo and wa' = wa]
  show ?thesis unfolding it by simp
qed

lemma steps_supply_nonneg:
  assumes "0 \<le> wa" "wa \<le> 100" "- 100 \<le> bo"
    and "it \<in> set (steps (run_iterations gauss w df n sh bo wa))"
  shows "0 \<le> sim_supply it"
proof -
  let ?its = "steps (run_iterations gauss w df n sh bo wa)"
  from assms(4) obtain i where i: "i < length ?its" and it: "it = ?its ! i"
    by (auto simp: in_set_conv_nth)
  from i have i': "i < nat n" by (simp add: length_steps)
  from steps_policy[OF i', where gauss = gauss and w = w and df = df and sh = sh and bo = bo
      and wa = wa and sh' = sh and bo' = bo and wa' = wa]
  have b: "0 \<le> base_supply (?its ! i)"
    and s: "sim_supply (?its ! i) = base_supply (?its ! i) * (1 + bo / 100) * (1 - wa / 100)"
    by simp_all
  have "0 \<le> 1 + bo / 100" "0 \<le> 1 - wa / 100" using assms by simp_all
  with b show ?thesis unfolding it s by (intro mult_nonneg_nonneg)
qed

subsection \<open>The draws and the dates of each step\<close>

lemma forecast_loop_nth:
  assumes v: "0 \<le> v"
    and "for_loop (forecast_step gauss las sl v cd sh bo wa) ms (c, g) = Inr (its, c', g')"
    and "i < length ms"
  shows "trend_component (its ! i) = las + sl * real_of_int (ms ! i)
    \<and> random_bounce (its ! i) = v * 0.3 * gauss (rng_seed g) (rng_pos g + 2 * i)
    \<and> demand_noise (its ! i) = v * 0.15 * gauss (rng_seed g) (rng_pos g + 2 * i + 1)
    \<and> next_date (its ! i) = date_offset_months cd (ms ! i)"
  using assms(2,3)
proof (induction ms arbitrary: c g its i)
  case Nil
  then show ?case by simp
next
  case (Cons m ms)
  from Cons.prems(1) obtain it d h its' where
    a: "forecast_step gauss las sl v cd sh bo wa m (c, g) = Inr (it, d, h)"
    and b: "for_loop (forecast_step gauss las sl v cd sh bo wa) ms (d, h) = Inr (its', c', g')"
    and c: "its = it # its'"
    by (rule for_loop_ConsE)
  note f = forecast_step_facts[OF v a]
  show ?case
  proof (cases i)
    case 0
    then show ?thesis using f c by simp
  next
    case (Suc j)
    then have j: "j < length ms" using Cons.prems(2) by simp
    from Cons.IH[OF b j] f(11) show ?thesis using Suc c by simp
  qed
qed

lemma upto_1_nth: "i < nat n \<Longrightarrow> [1..n] ! i = 1 + int i"
  by (simp add: nth_upto)

lemma steps_nth:
  assumes d: "detect_trend (monthly_series df) = Inr (s, v)" and i: "i < nat n"
  shows "trend_component (steps (run_iterations gauss w df n sh bo wa) ! i)
           = last_actual_supply_of (monthly_series df) + s * (1 + real i)
    \<and> random_bounce (steps (run_iterations gauss w df n sh bo wa) ! i)
           = v * 0.3 * gauss 42 (2 * i)
    \<and> demand_noise (steps (run_iterations gauss w df n sh bo wa) ! i)
           = v * 0.15 * gauss 42 (2 * i + 1)
    \<and> next_date (steps (run_iterations gauss w df n sh bo wa) ! i)
           = date_offset_months (current_date_of w (monthly_series df)) (1 + int i)"
proof -
  let ?las = "last_actual_supply_of (monthly_series df)"
  let ?cd = "current_date_of w (monthly_series df)"
  have v: "0 \<le> v" using detect_trend_ok[of "monthly_series df"] d by simp
  obtain its c g where l: "for_loop (forecast_step gauss ?las s v ?cd sh bo wa) [1..n]
      (?las, np_random_seed 42) = Inr (its, c, g)"
    using forecast_loop_total[OF v] by blast
  have e: "steps (run_iterations gauss w df n sh bo wa) = its"
    by (simp add: run_iterations_unfold[OF d] l steps_def)
  have i': "i < length [1..n]" using i by simp
  from forecast_loop_nth[OF v l i'] show ?thesis
    unfolding e using i by (simp add: upto_1_nth np_random_seed_def)
qed

lemma run_world_after:
  "\<exists>r. run_simulation gauss w df n sh bo wa =
     Inr (r, assign_created_at df, w\<lparr>rng := \<lparr>rng_seed = 42, rng_pos = 2 * nat n\<rparr>\<rparr>)
   \<and> forecast_df r = map to_forecast_row (steps (run_iterations gauss w df n sh bo wa))"
proof -
  obtain s v its c g where d: "detect_trend (monthly_series df) = Inr (s, v)" and v: "0 \<le> v"
    and ri: "run_iterations gauss w df n sh bo wa = Inr (its, c, g)"
    and fl: "for_loop (forecast_step gauss (last_actual_supply_of (monthly_series df)) s v
                 (current_date_of w (monthly_series df)) sh bo wa)
           [1..n] (last_actual_supply_of (monthly_series df), np_random_seed 42) = Inr (its, c, g)"
    by (rule run_iterations_ok)
  have "g = \<lparr>rng_seed = 42, rng_pos = 2 * nat n\<rparr>"
    using forecast_loop_final(1)[OF v fl] by (simp add: np_random_seed_def)
  then show ?thesis
    by (simp add: run_simulation_of_iterations[OF ri] ri steps_def)
qed

subsection \<open>The months of the series\<close>

lemma monthly_series_months:
  "map (\<lambda>row. month_index (h_created_at row)) (monthly_series df) = (if df = [] then [] else bins df)"
  by (simp add: monthly_series_def month_index_month_start comp_def)

lemma bins_bounds:
  assumes "df \<noteq> []"
  shows "Min (row_month ` set df) \<le> Max (row_month ` set df)"
    and "length (bins df) = Max (row_month ` set df) - Min (row_month ` set df) + 1"
    and "i < length (bins df) \<Longrightarrow> bins df ! i = Min (row_month ` set df) + i"
proof -
  from assms have "row_month ` set df \<noteq> {}" "finite (row_month ` set df)" by simp_all
  then show le: "Min (row_month ` set df) \<le> Max (row_month ` set df)" by simp
  then show "length (bins df) = Max (row_month ` set df) - Min (row_month ` set df) + 1"
    by (simp add: bins_def Suc_diff_le)
  show "i < length (bins df) \<Longrightarrow> bins df ! i = Min (row_month ` set df) + i"
    unfolding bins_def by (simp del: upt_Suc)
qed

subsection \<open>Independence of the state on entry\<close>

lemma label_month_only:
  "month_index t1 = month_index t2 \<Longrightarrow>
     strftime_b_Y (date_offset_months t1 m) = strftime_b_Y (date_offset_months t2 m)"
  by (simp add: strftime_b_Y_def date_offset_months_def Let_def)

lemma list_all2_map_eq: "list_all2 (\<lambda>a b. f a = f b) xs ys \<Longrightarrow> map f xs = map f ys"
  by (induction xs ys rule: list_all2_induct) simp_all

lemma forecast_loop_rows:
  assumes v: "0 \<le> v" and mi: "month_index cd1 = month_index cd2"
  shows "\<exists>its1 its2 c' g'.
      for_loop (forecast_step gauss las sl v cd1 sh bo wa) ms (c, g) = Inr (its1, c', g')
    \<and> for_loop (forecast_step gauss las sl v cd2 sh bo wa) ms (c, g) = Inr (its2, c', g')
    \<and> map to_forecast_row its1 = map to_forecast_row its2"
proof -
  have "\<exists>its1 its2 c1' c2' g'.
      for_loop (forecast_step gauss las sl v cd1 sh bo wa) ms (c, g) = Inr (its1, c1', g')
    \<and> for_loop (forecast_step gauss las sl v cd2 sh bo wa) ms (c, g) = Inr (its2, c2', g')
    \<and> list_all2 (\<lambda>a b. to_forecast_row a = to_forecast_row b) its1 its2 \<and> c1' = c2'"
  proof (rule for_loop_rel[where S = "(=)"])
    fix m :: int and c1 c2 :: real and g :: rng_state
    assume "c1 = c2"
    then show "\<exists>it1 it2 c1' c2' g'.
        forecast_step gauss las sl v cd1 sh bo wa m (c1, g) = Inr (it1, c1', g')
      \<and> forecast_step gauss las sl v cd2 sh bo wa m (c2, g) = Inr (it2, c2', g')
      \<and> to_forecast_row it1 = to_forecast_row it2 \<and> c1' = c2'"
      unfolding forecast_step_Inr[OF v]
      by (simp add: to_forecast_row_def label_month_only[OF mi])
  qed simp
  then show ?thesis using list_all2_map_eq by blast
qed

lemma rows_deterministic:
  assumes "month_index (current_date_of w1 (monthly_series df))
         = month_index (current_date_of w2 (monthly_series df))"
  shows "\<exists>r. result_of (run_simulation gauss w1 df n sh bo wa) = Inr r
       \<and> result_of (run_simulation gauss w2 df n sh bo wa) = Inr r"
proof -
  obtain s v where d: "detect_trend (monthly_series df) = Inr (s, v)" and v: "0 \<le> v"
    using detect_trend_ok by blast
  let ?las = "last_actual_supply_of (monthly_series df)"
  from forecast_loop_rows[OF v assms, of gauss ?las s sh bo wa "[1..n]" ?las "np_random_seed 42"]
  obtain its1 its2 c' g' where
    a: "for_loop (forecast_step gauss ?las s v (current_date_of w1 (monthly_series df)) sh bo wa)
          [1..n] (?las, np_random_seed 42) = Inr (its1, c', g')"
    and b: "for_loop (forecast_step gauss ?las s v (current_date_of w2 (monthly_series df)) sh bo wa)
          [1..n] (?las, np_random_seed 42) = Inr (its2, c', g')"
    and e: "map to_forecast_row its1 = map to_forecast_row its2"
    by blast
  have r1: "run_iterations gauss w1 df n sh bo wa = Inr (its1, c', g')"
    by (simp add: run_iterations_unfold[OF d] a)
  have r2: "run_iterations gauss w2 df n sh bo wa = Inr (its2, c', g')"
    by (simp add: run_iterations_unfold[OF d] b)
  have "length its1 = length its2" using for_loop_length[OF a] for_loop_length[OF b] by simp
  then have ne: "its1 = [] \<longleftrightarrow> its2 = []" by auto
  show ?thesis
    unfolding run_simulation_of_iterations[OF r1] run_simulation_of_iterations[OF r2]
    by (simp add: result_of_def e ne)
qed

lemma current_date_nonempty:
  "df \<noteq> [] \<Longrightarrow> current_date_of w1 (monthly_series df) = current_date_of w2 (monthly_series df)"
  by (simp add: current_date_of_def monthly_series_empty_iff)

lemma monthly_series_assign: "monthly_series (assign_created_at df) = monthly_series df"
proof -
  have "set (map row_month (assign_created_at df)) = set (map row_month df)"
    by (simp only: row_month_assign)
  then have "row_month ` set (assign_created_at df) = row_month ` set df" by simp
  then have b: "bins (assign_created_at df) = bins df" by (simp add: bins_def)
  have e: "assign_created_at df = [] \<longleftrightarrow> df = []" by (simp add: assign_created_at_def)
  show ?thesis by (simp add: monthly_series_def b e month_sum_assign)
qed

lemma run_iterations_assign:
  "run_iterations gauss w (assign_created_at df) n sh bo wa = run_iterations gauss w df n sh bo wa"
  by (simp add: run_iterations_def prepare_history_series monthly_series_assign)

lemma result_of_assign:
  "result_of (run_simulation gauss w (assign_created_at df) n sh bo wa)
     = result_of (run_simulation gauss w df n sh bo wa)"
  by (simp add: run_simulation_def run_iterations_assign result_of_def Let_def split: sum.splits)

subsection \<open>The balance along a run\<close>

lemma steps_balance:
  assumes "i < nat n"
  shows "current_inventory (steps (run_iterations gauss w df n sh bo wa) ! i) =
     (if i = 0 then last_actual_supply_of (monthly_series df)
      else current_inventory (steps (run_iterations gauss w df n sh bo wa) ! (i - 1)))
     + (sim_supply (steps (run_iterations gauss w df n sh bo wa) ! i)
        - sim_demand (steps (run_iterations gauss w df n sh bo wa) ! i))"
proof -
  obtain s v its c g where v: "0 \<le> v"
    and ri: "run_iterations gauss w df n sh bo wa = Inr (its, c, g)"
    and fl: "for_loop (forecast_step gauss (last_actual_supply_of (monthly_series df)) s v
                 (current_date_of w (monthly_series df)) sh bo wa)
           [1..n] (last_actual_supply_of (monthly_series df), np_random_seed 42) = Inr (its, c, g)"
    by (rule run_iterations_ok)
  have e: "steps (run_iterations gauss w df n sh bo wa) = its" by (simp add: ri steps_def)
  have "i < length its" using assms run_iterations_length[OF ri] by simp
  with forecast_loop_balance[OF v fl] show ?thesis unfolding e by blast
qed

lemma monthly_series_Nil: "monthly_series [] = []"
  by (simp add: monthly_series_def)

subsection \<open>Evaluation\<close>

lemmas eval_defs = run_simulation_def run_iterations_def prepare_history_def assign_created_at_def
  pd_to_datetime_def resample_MS_sum_def row_month_def month_sum_def month_index_def month_start_def
  month_list_def detect_trend_def recent_window_def lookback_def np_polyfit1_def pd_std_def
  forecast_step_def np_random_normal_def np_random_seed_def demand_ratio_def to_forecast_row_def
  last_actual_supply_of_def current_date_of_def strftime_b_Y_def date_offset_months_def
  days_in_month_def is_leap_def digit_char_def py_int_def mean_def Let_def upto.simps
  power2_eq_square result_of_def

lemmas input_defs = no_noise_def low_noise_def mid_jan_2024_def mid_feb_2024_def some_world_def
  later_world_def one_donation_def zero_donation_def flat_donations_def falling_donations_def
  spec_example_def reseeded_world_def

section \<open>The claims\<close>

subsection \<open>Division guards\<close>

text \<open>
  C6. With a positive mean demand, days of supply is the final inventory over the daily
  demand and the coverage ratio is mean supply over mean demand times 100; with a mean
  demand of zero they are plus infinity and 0; the coverage of a blood type whose
  allocated demand is zero is 1.0; and none of the three guarded expressions (lines 282,
  737 and 821) raises a division error, whatever their operands.
\<close>

theorem division_guards:
  "(0 < monthly_dem \<longrightarrow>
      days_of_supply final_inventory monthly_dem = Inr (Finite (final_inventory / (monthly_dem / 30)))
      \<and> coverage_ratio monthly_sup monthly_dem = Inr (monthly_sup / monthly_dem * 100))
   \<and> (monthly_dem = 0 \<longrightarrow>
      days_of_supply final_inventory monthly_dem = Inr PosInf
      \<and> coverage_ratio monthly_sup monthly_dem = Inr 0)
   \<and> (t_dem = 0 \<longrightarrow> coverage t_sup t_dem = Inr 1)
   \<and> days_of_supply final_inventory monthly_dem \<noteq> Inl e
   \<and> coverage_ratio monthly_sup monthly_dem \<noteq> Inl e
   \<and> coverage t_sup t_dem \<noteq> Inl e"
  by (simp add: days_of_supply_def coverage_ratio_def coverage_def py_truediv_def)

theorem division_guards_witness:
  "days_of_supply 1150 950 = Inr (Finite (1150 / (950 / 30)))
   \<and> coverage_ratio 1000 950 = Inr (1000 / 950 * 100)
   \<and> days_of_supply 1150 0 = Inr PosInf
   \<and> coverage_ratio 1000 0 = Inr 0
   \<and> coverage 3 0 = Inr 1"
  using division_guards[of 950 1150 1000 0 3 ZeroDivisionError]
        division_guards[of 0 1150 1000 0 3 ZeroDivisionError]
  by simp

subsection \<open>The balance of the inventory\<close>

text \<open>
  As stated, C2 reads the balance equation on the emitted integers. Two months of 10
  units (so the fit is exact and the volatility 0, whatever the noise), one month ahead
  with a supply boost of 3 percent: the running values are supply 10.3, demand 9.5,
  inventory 10.8, emitted as 10, 9 and 10, and 10 is not 10 + 10 - 9.
\<close>

theorem emitted_balance_counterexample:
  "snd (prepare_history flat_donations) =
     Inr [\<lparr>h_created_at = \<lparr>ts_year = 2024, ts_month = Jan, ts_day = 1\<rparr>, h_pints_donated = 10\<rparr>,
          \<lparr>h_created_at = \<lparr>ts_year = 2024, ts_month = Feb, ts_day = 1\<rparr>, h_pints_donated = 10\<rparr>]
   \<and> result_of (run_simulation no_noise some_world flat_donations 1 0 3 0) =
     Inr \<lparr>forecast_df = [\<lparr>Date = ''Mar 2024'', Inventory = 10, MonthlySupply = 10, MonthlyDemand = 9\<rparr>],
          avg_sup = 10, avg_dem = 9\<rparr>
   \<and> \<not> emitted_balance 10
         [\<lparr>Date = ''Mar 2024'', Inventory = 10, MonthlySupply = 10, MonthlyDemand = 9\<rparr>]"
  by (simp add: eval_defs input_defs emitted_balance_def)

text \<open>
  C2, amended. The running inventory of the loop satisfies the balance equation exactly at
  every step, starting from the last historical total; every emitted field is the integer
  truncation of the running value; hence the emitted integers satisfy the equation up to
  truncation only: the two sides differ by less than 4.
\<close>

theorem running_balance:
  "\<exists>history its c g r.
      snd (prepare_history df) = Inr history
    \<and> run_iterations gauss w df n sh bo wa = Inr (its, c, g)
    \<and> result_of (run_simulation gauss w df n sh bo wa) = Inr r
    \<and> forecast_df r = map to_forecast_row its
    \<and> (\<forall>i<length its.
          current_inventory (its ! i) =
            (if i = 0 then last_actual_supply_of history else current_inventory (its ! (i - 1)))
              + sim_supply (its ! i) - sim_demand (its ! i))
    \<and> (\<forall>i<length its.
          Inventory (forecast_df r ! i) = py_int (current_inventory (its ! i))
        \<and> MonthlySupply (forecast_df r ! i) = py_int (sim_supply (its ! i))
        \<and> MonthlyDemand (forecast_df r ! i) = py_int (sim_demand (its ! i)))
    \<and> (\<forall>i<length its.
          \<bar>real_of_int (Inventory (forecast_df r ! i))
             - ((if i = 0 then last_actual_supply_of history
                 else real_of_int (Inventory (forecast_df r ! (i - 1))))
                + real_of_int (MonthlySupply (forecast_df r ! i))
                - real_of_int (MonthlyDemand (forecast_df r ! i)))\<bar> < 4)"
proof -
  obtain s v its c g where d: "detect_trend (monthly_series df) = Inr (s, v)" and v: "0 \<le> v"
    and ri: "run_iterations gauss w df n sh bo wa = Inr (its, c, g)"
    and fl: "for_loop (forecast_step gauss (last_actual_supply_of (monthly_series df)) s v
                 (current_date_of w (monthly_series df)) sh bo wa)
           [1..n] (last_actual_supply_of (monthly_series df), np_random_seed 42) = Inr (its, c, g)"
    by (rule run_iterations_ok)
  define r where "r = \<lparr>forecast_df = map to_forecast_row its,
           avg_sup = (if its \<noteq> [] then mean (map (\<lambda>r. real_of_int (MonthlySupply r)) (map to_forecast_row its)) else 0),
           avg_dem = (if its \<noteq> [] then mean (map (\<lambda>r. real_of_int (MonthlyDemand r)) (map to_forecast_row its)) else 0)\<rparr>"
  have rs: "result_of (run_simulation gauss w df n sh bo wa) = Inr r"
    by (simp add: run_simulation_of_iterations[OF ri] result_of_def r_def)
  have rows: "forecast_df r = map to_forecast_row its" by (simp add: r_def)
  let ?s0 = "last_actual_supply_of (monthly_series df)"
  have bal: "\<forall>i<length its. current_inventory (its ! i) =
            (if i = 0 then ?s0 else current_inventory (its ! (i - 1)))
              + sim_supply (its ! i) - sim_demand (its ! i)"
    using forecast_loop_balance[OF v fl] by simp
  have emit: "\<forall>i<length its.
          Inventory (forecast_df r ! i) = py_int (current_inventory (its ! i))
        \<and> MonthlySupply (forecast_df r ! i) = py_int (sim_supply (its ! i))
        \<and> MonthlyDemand (forecast_df r ! i) = py_int (sim_demand (its ! i))"
    by (simp add: rows to_forecast_row_def)
  have bound: "\<forall>i<length its.
          \<bar>real_of_int (Inventory (forecast_df r ! i))
             - ((if i = 0 then ?s0 else real_of_int (Inventory (forecast_df r ! (i - 1))))
                + real_of_int (MonthlySupply (forecast_df r ! i))
                - real_of_int (MonthlyDemand (forecast_df r ! i)))\<bar> < 4"
  proof (intro allI impI)
    fix i assume i: "i < length its"
    have e: "Inventory (forecast_df r ! i) = py_int (current_inventory (its ! i))"
        "MonthlySupply (forecast_df r ! i) = py_int (sim_supply (its ! i))"
        "MonthlyDemand (forecast_df r ! i) = py_int (sim_demand (its ! i))"
      using emit i by simp_all
    have b: "current_inventory (its ! i) =
            (if i = 0 then ?s0 else current_inventory (its ! (i - 1)))
              + sim_supply (its ! i) - sim_demand (its ! i)" using bal i by blast
    note c1 = py_int_close[of "current_inventory (its ! i)", unfolded abs_less_iff]
    note c2 = py_int_close[of "sim_supply (its ! i)", unfolded abs_less_iff]
    note c3 = py_int_close[of "sim_demand (its ! i)", unfolded abs_less_iff]
    show "\<bar>real_of_int (Inventory (forecast_df r ! i))
             - ((if i = 0 then ?s0 else real_of_int (Inventory (forecast_df r ! (i - 1))))
                + real_of_int (MonthlySupply (forecast_df r ! i))
                - real_of_int (MonthlyDemand (forecast_df r ! i)))\<bar> < 4"
    proof (cases "i = 0")
      case True
      then show ?thesis unfolding abs_less_iff using e b c1 c2 c3 by simp
    next
      case False
      then have "i - 1 < length its" using i by simp
      then have p: "Inventory (forecast_df r ! (i - 1)) = py_int (current_inventory (its ! (i - 1)))"
        using emit by simp
      note c4 = py_int_close[of "current_inventory (its ! (i - 1))", unfolded abs_less_iff]
      show ?thesis unfolding abs_less_iff using False e p b c1 c2 c3 c4 by simp
    qed
  qed
  show ?thesis
    apply (rule exI[of _ "monthly_series df"], rule exI[of _ its], rule exI[of _ c],
        rule exI[of _ g], rule exI[of _ r])
    apply (intro conjI)
          apply (rule prepare_history_series)
         apply (rule ri)
        apply (rule rs)
       apply (rule rows)
      apply (rule bal)
     apply (rule emit)
    apply (rule bound)
    done
qed

theorem running_balance_witness:
  "\<exists>its c g r.
      run_iterations no_noise some_world flat_donations 2 0 3 0 = Inr (its, c, g)
    \<and> length its = 2
    \<and> result_of (run_simulation no_noise some_world flat_donations 2 0 3 0) = Inr r
    \<and> forecast_df r =
        [\<lparr>Date = ''Mar 2024'', Inventory = 10, MonthlySupply = 10, MonthlyDemand = 9\<rparr>,
         \<lparr>Date = ''Apr 2024'', Inventory = 11, MonthlySupply = 10, MonthlyDemand = 9\<rparr>]
    \<and> current_inventory (its ! 0) = 10 + sim_supply (its ! 0) - sim_demand (its ! 0)
    \<and> current_inventory (its ! 1) = current_inventory (its ! 0) + sim_supply (its ! 1) - sim_demand (its ! 1)
    \<and> \<bar>real_of_int (Inventory (forecast_df r ! 1))
         - (real_of_int (Inventory (forecast_df r ! 0))
            + real_of_int (MonthlySupply (forecast_df r ! 1))
            - real_of_int (MonthlyDemand (forecast_df r ! 1)))\<bar> < 4"
proof -
  from running_balance[of flat_donations no_noise some_world 2 0 3 0]
  obtain history its c g r where
    h: "snd (prepare_history flat_donations) = Inr history"
    and ri: "run_iterations no_noise some_world flat_donations 2 0 3 0 = Inr (its, c, g)"
    and rs: "result_of (run_simulation no_noise some_world flat_donations 2 0 3 0) = Inr r"
    and bal: "\<forall>i<length its.
          current_inventory (its ! i) =
            (if i = 0 then last_actual_supply_of history else current_inventory (its ! (i - 1)))
              + sim_supply (its ! i) - sim_demand (its ! i)"
    and bound: "\<forall>i<length its.
          \<bar>real_of_int (Inventory (forecast_df r ! i))
             - ((if i = 0 then last_actual_supply_of history
                 else real_of_int (Inventory (forecast_df r ! (i - 1))))
                + real_of_int (MonthlySupply (forecast_df r ! i))
                - real_of_int (MonthlyDemand (forecast_df r ! i)))\<bar> < 4"
    by blast
  have len: "length its = 2" using run_iterations_length[OF ri] by simp
  have s0: "last_actual_supply_of history = 10"
    using h by (auto simp: eval_defs input_defs)
  have rows: "forecast_df r =
        [\<lparr>Date = ''Mar 2024'', Inventory = 10, MonthlySupply = 10, MonthlyDemand = 9\<rparr>,
         \<lparr>Date = ''Apr 2024'', Inventory = 11, MonthlySupply = 10, MonthlyDemand = 9\<rparr>]"
    using rs by (auto simp: eval_defs input_defs)
  have b0: "current_inventory (its ! 0) = 10 + sim_supply (its ! 0) - sim_demand (its ! 0)"
    using bal len s0 by simp
  have b1: "current_inventory (its ! 1) = current_inventory (its ! 0) + sim_supply (its ! 1) - sim_demand (its ! 1)"
    using bal[rule_format, of 1] len by simp
  have e1: "\<bar>real_of_int (Inventory (forecast_df r ! 1))
         - (real_of_int (Inventory (forecast_df r ! 0))
            + real_of_int (MonthlySupply (forecast_df r ! 1))
            - real_of_int (MonthlyDemand (forecast_df r ! 1)))\<bar> < 4"
    using bound[rule_format, of 1] len by simp
  show ?thesis using ri len rs rows b0 b1 e1 by blast
qed

subsection \<open>The response to the policy parameters\<close>

text \<open>
  As stated, C3 fails where the clamp of line 208 is hit. After 300 units in January and
  100 in February the fitted slope is -200 and the volatility 0, so the first projected
  month has a trend of -100 and a base supply clamped to 0: the simulated supply and
  demand are 0 whatever the boost, the shock and the wastage.
\<close>

theorem policy_response_counterexample:
  "map sim_supply (steps (run_iterations no_noise some_world falling_donations 1 0 0 0)) = [0]
   \<and> map sim_supply (steps (run_iterations no_noise some_world falling_donations 1 0 10 0)) = [0]
   \<and> map sim_demand (steps (run_iterations no_noise some_world falling_donations 1 0 0 0)) = [0]
   \<and> map sim_demand (steps (run_iterations no_noise some_world falling_donations 1 10 0 0)) = [0]
   \<and> map sim_supply (steps (run_iterations no_noise some_world falling_donations 1 0 0 10)) = [0]"
  by (simp add: eval_defs input_defs steps_def)

text \<open>
  C3, amended. Two runs on the same history, horizon and noise have, at every step, the
  same base supply, base demand and demand noise. At a step whose base supply is positive,
  a larger supply boost (wastage fixed, below 100) gives a strictly larger simulated
  supply and a larger wastage (boost fixed, above -100) a strictly smaller one; at a step
  where base demand plus noise is positive, a larger demand shock gives a strictly larger
  simulated demand. Without the positivity conditions the responses are monotone, not
  strictly (wastage at most 100, boost at least -100, base demand plus noise not negative).
\<close>

theorem policy_response:
  fixes gauss :: "nat \<Rightarrow> nat \<Rightarrow> real" and w :: world and df :: "donation list" and n :: int
    and sh bo wa sh' bo' wa' :: real
  defines "its \<equiv> steps (run_iterations gauss w df n sh bo wa)"
    and "its' \<equiv> steps (run_iterations gauss w df n sh' bo' wa')"
  shows "length its = nat n \<and> length its' = nat n
    \<and> (\<forall>i<nat n.
          base_supply (its' ! i) = base_supply (its ! i)
        \<and> base_demand (its' ! i) = base_demand (its ! i)
        \<and> demand_noise (its' ! i) = demand_noise (its ! i)
        \<and> (bo < bo' \<and> wa' = wa \<and> wa < 100 \<and> 0 < base_supply (its ! i)
              \<longrightarrow> sim_supply (its ! i) < sim_supply (its' ! i))
        \<and> (bo < bo' \<and> wa' = wa \<and> wa \<le> 100
              \<longrightarrow> sim_supply (its ! i) \<le> sim_supply (its' ! i))
        \<and> (sh < sh' \<and> 0 < base_demand (its ! i) + demand_noise (its ! i)
              \<longrightarrow> sim_demand (its ! i) < sim_demand (its' ! i))
        \<and> (sh < sh' \<and> 0 \<le> base_demand (its ! i) + demand_noise (its ! i)
              \<longrightarrow> sim_demand (its ! i) \<le> sim_demand (its' ! i))
        \<and> (wa < wa' \<and> bo' = bo \<and> - 100 < bo \<and> 0 < base_supply (its ! i)
              \<longrightarrow> sim_supply (its' ! i) < sim_supply (its ! i))
        \<and> (wa < wa' \<and> bo' = bo \<and> - 100 \<le> bo
              \<longrightarrow> sim_supply (its' ! i) \<le> sim_supply (its ! i)))"
proof (intro conjI allI impI)
  show "length its = nat n" "length its' = nat n"
    by (simp_all add: its_def its'_def length_steps)
next
  fix i assume i: "i < nat n"
  note fs = steps_policy[OF i, where gauss = gauss and w = w and df = df and sh = sh and bo = bo
      and wa = wa and sh' = sh' and bo' = bo' and wa' = wa', folded its_def its'_def]
  from fs have f: "base_supply (its' ! i) = base_supply (its ! i)"
    "base_demand (its' ! i) = base_demand (its ! i)"
    "demand_noise (its' ! i) = demand_noise (its ! i)"
    "0 \<le> base_supply (its ! i)"
    "sim_supply (its ! i) = base_supply (its ! i) * (1 + bo / 100) * (1 - wa / 100)"
    "sim_supply (its' ! i) = base_supply (its ! i) * (1 + bo' / 100) * (1 - wa' / 100)"
    "sim_demand (its ! i) = (base_demand (its ! i) + demand_noise (its ! i)) * (1 + sh / 100)"
    "sim_demand (its' ! i) = (base_demand (its ! i) + demand_noise (its ! i)) * (1 + sh' / 100)"
    by simp_all
  show "base_supply (its' ! i) = base_supply (its ! i)" by (rule f(1))
  show "base_demand (its' ! i) = base_demand (its ! i)" by (rule f(2))
  show "demand_noise (its' ! i) = demand_noise (its ! i)" by (rule f(3))
  { assume a: "bo < bo' \<and> wa' = wa \<and> wa < 100 \<and> 0 < base_supply (its ! i)"
    then have "0 < 1 - wa / 100" by simp
    with a show "sim_supply (its ! i) < sim_supply (its' ! i)"
      unfolding f(5) f(6) by (simp add: scale_strict) }
  { assume a: "bo < bo' \<and> wa' = wa \<and> wa \<le> 100"
    then have "0 \<le> 1 - wa / 100" by simp
    with a f(4) show "sim_supply (its ! i) \<le> sim_supply (its' ! i)"
      unfolding f(5) f(6) by (simp add: scale_weak) }
  { assume a: "sh < sh' \<and> 0 < base_demand (its ! i) + demand_noise (its ! i)"
    then show "sim_demand (its ! i) < sim_demand (its' ! i)"
      unfolding f(7) f(8) by (simp add: shock_strict) }
  { assume a: "sh < sh' \<and> 0 \<le> base_demand (its ! i) + demand_noise (its ! i)"
    then show "sim_demand (its ! i) \<le> sim_demand (its' ! i)"
      unfolding f(7) f(8) by (simp add: shock_weak) }
  { assume a: "wa < wa' \<and> bo' = bo \<and> - 100 < bo \<and> 0 < base_supply (its ! i)"
    then have "0 < 1 + bo / 100" by simp
    with a show "sim_supply (its' ! i) < sim_supply (its ! i)"
      unfolding f(5) f(6) by (simp add: waste_strict) }
  { assume a: "wa < wa' \<and> bo' = bo \<and> - 100 \<le> bo"
    then have "0 \<le> 1 + bo / 100" by simp
    with a f(4) show "sim_supply (its' ! i) \<le> sim_supply (its ! i)"
      unfolding f(5) f(6) by (simp add: waste_weak) }
qed

theorem policy_response_witness:
  "sim_supply (steps (run_iterations no_noise some_world one_donation 1 0 0 0) ! 0)
     < sim_supply (steps (run_iterations no_noise some_world one_donation 1 10 10 0) ! 0)
   \<and> sim_demand (steps (run_iterations no_noise some_world one_donation 1 0 0 0) ! 0)
     < sim_demand (steps (run_iterations no_noise some_world one_donation 1 10 10 0) ! 0)
   \<and> sim_supply (steps (run_iterations no_noise some_world one_donation 1 0 0 5) ! 0)
     < sim_supply (steps (run_iterations no_noise some_world one_donation 1 0 0 0) ! 0)"
proof -
  have b: "base_supply (steps (run_iterations no_noise some_world one_donation 1 0 0 0) ! 0) = 10"
    "base_demand (steps (run_iterations no_noise some_world one_donation 1 0 0 0) ! 0) = 9.5"
    "demand_noise (steps (run_iterations no_noise some_world one_donation 1 0 0 0) ! 0) = 0"
    by (simp_all add: eval_defs input_defs steps_def)
  from policy_response[where gauss = no_noise and w = some_world and df = one_donation and n = 1
         and sh = 0 and bo = 0 and wa = 0 and sh' = 10 and bo' = 10 and wa' = 0]
       policy_response[where gauss = no_noise and w = some_world and df = one_donation and n = 1
         and sh = 0 and bo = 0 and wa = 0 and sh' = 0 and bo' = 0 and wa' = 5] b
  show ?thesis by simp
qed

subsection \<open>The clamp on supply and the sign of demand\<close>

text \<open>
  C10. The base supply of every step is clamped at zero, so with a wastage between 0 and
  100 and a boost of at least -100 every emitted monthly supply is non-negative. Demand
  has no floor: there are noise draws, a history and a horizon for which, with all three
  policy parameters at 0, an emitted monthly demand is negative (one month of 0 units and
  draws of -1: base demand 0, demand noise -1.5, emitted -1).
\<close>

theorem asymmetric_clamping:
  "(\<forall>it\<in>set (steps (run_iterations gauss w df n sh bo wa)). 0 \<le> base_supply it)
   \<and> (0 \<le> wa \<and> wa \<le> 100 \<and> - 100 \<le> bo \<longrightarrow>
      (\<exists>res. result_of (run_simulation gauss w df n sh bo wa) = Inr res
         \<and> (\<forall>row\<in>set (forecast_df res). 0 \<le> MonthlySupply row)))
   \<and> (\<exists>gauss' w' df' n' res row.
         result_of (run_simulation gauss' w' df' n' 0 0 0) = Inr res
       \<and> row \<in> set (forecast_df res) \<and> MonthlyDemand row < 0)"
proof (intro conjI impI)
  show "\<forall>it\<in>set (steps (run_iterations gauss w df n sh bo wa)). 0 \<le> base_supply it"
    using steps_base_nonneg by blast
next
  assume a: "0 \<le> wa \<and> wa \<le> 100 \<and> - 100 \<le> bo"
  obtain res where r: "result_of (run_simulation gauss w df n sh bo wa) = Inr res"
    and f: "forecast_df res = map to_forecast_row (steps (run_iterations gauss w df n sh bo wa))"
    using result_of_run by blast
  have "\<forall>row\<in>set (forecast_df res). 0 \<le> MonthlySupply row"
    using a steps_supply_nonneg[of wa bo _ gauss w df n sh]
    by (auto simp: f to_forecast_row_def intro!: py_int_nonneg)
  with r show "\<exists>res. result_of (run_simulation gauss w df n sh bo wa) = Inr res
         \<and> (\<forall>row\<in>set (forecast_df res). 0 \<le> MonthlySupply row)" by blast
next
  have "result_of (run_simulation low_noise some_world zero_donation 1 0 0 0) =
      Inr \<lparr>forecast_df = [\<lparr>Date = ''Feb 2024'', Inventory = 1, MonthlySupply = 0, MonthlyDemand = - 1\<rparr>],
           avg_sup = 0, avg_dem = - 1\<rparr>"
    by (simp add: eval_defs input_defs)
  then show "\<exists>gauss' w' df' n' res row.
         result_of (run_simulation gauss' w' df' n' 0 0 0) = Inr res
       \<and> row \<in> set (forecast_df res) \<and> MonthlyDemand row < 0"
    by (intro exI[of _ low_noise] exI[of _ some_world] exI[of _ zero_donation] exI[of _ 1]
        exI[of _ "\<lparr>forecast_df = [\<lparr>Date = ''Feb 2024'', Inventory = 1, MonthlySupply = 0, MonthlyDemand = - 1\<rparr>],
           avg_sup = 0, avg_dem = - 1\<rparr>"]
        exI[of _ "\<lparr>Date = ''Feb 2024'', Inventory = 1, MonthlySupply = 0, MonthlyDemand = - 1\<rparr>"]) simp
qed

theorem asymmetric_clamping_witness:
  "\<exists>res. result_of (run_simulation low_noise some_world one_donation 2 0 10 5) = Inr res
      \<and> (\<forall>row\<in>set (forecast_df res). 0 \<le> MonthlySupply row)
      \<and> length (forecast_df res) = 2"
proof -
  from asymmetric_clamping[where gauss = low_noise and w = some_world and df = one_donation
      and n = 2 and sh = 0 and bo = 10 and wa = 5]
  obtain res where r: "result_of (run_simulation low_noise some_world one_donation 2 0 10 5) = Inr res"
    and p: "\<forall>row\<in>set (forecast_df res). 0 \<le> MonthlySupply row"
    by auto
  have "length (forecast_df res) = 2"
    using r by (auto simp: eval_defs input_defs)
  with r p show ?thesis by blast
qed

subsection \<open>Parameters are not validated\<close>




subsection \<open>The degenerate trend\<close>

text \<open>
  C8. For a history whose lookback window holds at most one monthly point the estimator
  returns slope 0 and volatility 10 without fitting, and the projection over such a
  history returns a forecast of the full horizon: every step's trend is the last
  historical total (slope 0, no intercept involved) and its two noise draws are scaled by
  0.3 * 10 and 0.15 * 10.
\<close>

theorem degenerate_trend:
  "(length (recent_window history) \<le> 1 \<longrightarrow> detect_trend history = Inr (0, 10))
   \<and> (snd (prepare_history df) = Inr history \<and> length (recent_window history) \<le> 1 \<longrightarrow>
        (\<exists>r. result_of (run_simulation gauss w df n sh bo wa) = Inr r
           \<and> length (forecast_df r) = nat n)
      \<and> (\<forall>i<nat n.
            trend_component (steps (run_iterations gauss w df n sh bo wa) ! i)
              = last_actual_supply_of history
          \<and> random_bounce (steps (run_iterations gauss w df n sh bo wa) ! i)
              = 3 * gauss 42 (2 * i)
          \<and> demand_noise (steps (run_iterations gauss w df n sh bo wa) ! i)
              = 1.5 * gauss 42 (2 * i + 1)))"
proof -
  have A: "length (recent_window history) \<le> 1 \<longrightarrow> detect_trend history = Inr (0, 10)"
    by (simp add: detect_trend_degenerate)
  have B: "\<exists>r. result_of (run_simulation gauss w df n sh bo wa) = Inr r
           \<and> length (forecast_df r) = nat n"
    using result_of_run[of gauss w df n sh bo wa] by (auto simp: length_steps)
  have C: "\<forall>i<nat n.
            trend_component (steps (run_iterations gauss w df n sh bo wa) ! i)
              = last_actual_supply_of history
          \<and> random_bounce (steps (run_iterations gauss w df n sh bo wa) ! i)
              = 3 * gauss 42 (2 * i)
          \<and> demand_noise (steps (run_iterations gauss w df n sh bo wa) ! i)
              = 1.5 * gauss 42 (2 * i + 1)"
    if a: "snd (prepare_history df) = Inr history \<and> length (recent_window history) \<le> 1"
  proof (intro allI impI)
    fix i assume i: "i < nat n"
    from a have h: "history = monthly_series df" by (simp add: prepare_history_series)
    from a have d: "detect_trend (monthly_series df) = Inr (0, 10)"
      unfolding h by (simp add: detect_trend_degenerate)
    from steps_nth[OF d i, of gauss w sh bo wa]
    show "trend_component (steps (run_iterations gauss w df n sh bo wa) ! i)
              = last_actual_supply_of history
          \<and> random_bounce (steps (run_iterations gauss w df n sh bo wa) ! i)
              = 3 * gauss 42 (2 * i)
          \<and> demand_noise (steps (run_iterations gauss w df n sh bo wa) ! i)
              = 1.5 * gauss 42 (2 * i + 1)"
      unfolding h by simp
  qed
  show ?thesis using A B C by blast
qed

theorem degenerate_trend_witness:
  "detect_trend [\<lparr>h_created_at = \<lparr>ts_year = 2024, ts_month = Jan, ts_day = 1\<rparr>, h_pints_donated = 10\<rparr>]
     = Inr (0, 10)
   \<and> (\<exists>r. result_of (run_simulation low_noise some_world one_donation 2 0 0 0) = Inr r
           \<and> length (forecast_df r) = 2)
   \<and> trend_component (steps (run_iterations low_noise some_world one_donation 2 0 0 0) ! 1) = 10
   \<and> random_bounce (steps (run_iterations low_noise some_world one_donation 2 0 0 0) ! 1) = - 3
   \<and> demand_noise (steps (run_iterations low_noise some_world one_donation 2 0 0 0) ! 1) = - 1.5"
proof -
  have h: "snd (prepare_history one_donation) =
      Inr [\<lparr>h_created_at = \<lparr>ts_year = 2024, ts_month = Jan, ts_day = 1\<rparr>, h_pints_donated = 10\<rparr>]"
    by (simp add: eval_defs input_defs)
  have l: "length (recent_window
      [\<lparr>h_created_at = \<lparr>ts_year = 2024, ts_month = Jan, ts_day = 1\<rparr>, h_pints_donated = 10\<rparr>]) \<le> 1"
    by (simp add: recent_window_def lookback_def)
  from degenerate_trend[of "[\<lparr>h_created_at = \<lparr>ts_year = 2024, ts_month = Jan, ts_day = 1\<rparr>, h_pints_donated = 10\<rparr>]"
      one_donation low_noise some_world 2 0 0 0] h l
  show ?thesis by (simp add: last_actual_supply_of_def low_noise_def)
qed

subsection \<open>The aggregation\<close>

text \<open>
  C7. For a non-empty frame the aggregation of lines 161 and 162 returns one row per
  calendar month from the month of the earliest record to the month of the latest,
  inclusive and in chronological order; the row of a month holds the sum of the volumes
  of the records of that month, which is zero for a month without records. In particular
  the records (Jan, 10), (Jan, 5), (Mar, 7) yield (Jan, 15), (Feb, 0), (Mar, 7).
\<close>

theorem aggregation_gap_filling:
  "(df \<noteq> [] \<longrightarrow>
      (\<exists>history. snd (prepare_history df) = Inr history
         \<and> length history = Max (row_month ` set df) - Min (row_month ` set df) + 1
         \<and> (\<forall>i<length history.
               h_created_at (history ! i) = month_start (Min (row_month ` set df) + i)
             \<and> month_index (h_created_at (history ! i)) = Min (row_month ` set df) + i
             \<and> h_pints_donated (history ! i) =
                 sum_list (map pints_donated
                   (filter (\<lambda>r. row_month r = Min (row_month ` set df) + i) df))
             \<and> ((\<forall>r\<in>set df. row_month r \<noteq> Min (row_month ` set df) + i)
                   \<longrightarrow> h_pints_donated (history ! i) = 0))
         \<and> sorted_wrt (<) (map (\<lambda>row. month_index (h_created_at row)) history)))
   \<and> snd (prepare_history spec_example) =
       Inr [\<lparr>h_created_at = \<lparr>ts_year = 2024, ts_month = Jan, ts_day = 1\<rparr>, h_pints_donated = 15\<rparr>,
            \<lparr>h_created_at = \<lparr>ts_year = 2024, ts_month = Feb, ts_day = 1\<rparr>, h_pints_donated = 0\<rparr>,
            \<lparr>h_created_at = \<lparr>ts_year = 2024, ts_month = Mar, ts_day = 1\<rparr>, h_pints_donated = 7\<rparr>]"
proof (intro conjI impI)
  assume ne: "df \<noteq> []"
  let ?lo = "Min (row_month ` set df)"
  let ?h = "monthly_series df"
  have len: "length ?h = Max (row_month ` set df) - ?lo + 1"
    using ne bins_bounds(2)[OF ne] by (simp add: monthly_series_def)
  have nth: "\<forall>i<length ?h.
               h_created_at (?h ! i) = month_start (?lo + i)
             \<and> month_index (h_created_at (?h ! i)) = ?lo + i
             \<and> h_pints_donated (?h ! i) =
                 sum_list (map pints_donated (filter (\<lambda>r. row_month r = ?lo + i) df))
             \<and> ((\<forall>r\<in>set df. row_month r \<noteq> ?lo + i) \<longrightarrow> h_pints_donated (?h ! i) = 0)"
  proof (intro allI impI)
    fix i assume "i < length ?h"
    then have i: "i < length (bins df)" using ne by (simp add: monthly_series_def)
    have e: "?h ! i = \<lparr>h_created_at = month_start (?lo + i), h_pints_donated = month_sum df (?lo + i)\<rparr>"
      using ne i bins_bounds(3)[OF ne i] by (simp add: monthly_series_def)
    have z: "(\<forall>r\<in>set df. row_month r \<noteq> ?lo + i) \<longrightarrow> filter (\<lambda>r. row_month r = ?lo + i) df = []"
      by (auto simp: filter_empty_conv)
    show "h_created_at (?h ! i) = month_start (?lo + i)
             \<and> month_index (h_created_at (?h ! i)) = ?lo + i
             \<and> h_pints_donated (?h ! i) =
                 sum_list (map pints_donated (filter (\<lambda>r. row_month r = ?lo + i) df))
             \<and> ((\<forall>r\<in>set df. row_month r \<noteq> ?lo + i) \<longrightarrow> h_pints_donated (?h ! i) = 0)"
      using z by (auto simp: e month_index_month_start month_sum_eq)
  qed
  have srt: "sorted_wrt (<) (map (\<lambda>row. month_index (h_created_at row)) ?h)"
    unfolding monthly_series_months using ne by (simp add: bins_def del: upt_Suc)
  show "\<exists>history. snd (prepare_history df) = Inr history
         \<and> length history = Max (row_month ` set df) - ?lo + 1
         \<and> (\<forall>i<length history.
               h_created_at (history ! i) = month_start (?lo + i)
             \<and> month_index (h_created_at (history ! i)) = ?lo + i
             \<and> h_pints_donated (history ! i) =
                 sum_list (map pints_donated (filter (\<lambda>r. row_month r = ?lo + i) df))
             \<and> ((\<forall>r\<in>set df. row_month r \<noteq> ?lo + i) \<longrightarrow> h_pints_donated (history ! i) = 0))
         \<and> sorted_wrt (<) (map (\<lambda>row. month_index (h_created_at row)) history)"
    apply (rule exI[of _ ?h])
    apply (intro conjI)
       apply (rule prepare_history_series)
      apply (rule len)
     apply (rule nth)
    apply (rule srt)
    done
next
  show "snd (prepare_history spec_example) =
       Inr [\<lparr>h_created_at = \<lparr>ts_year = 2024, ts_month = Jan, ts_day = 1\<rparr>, h_pints_donated = 15\<rparr>,
            \<lparr>h_created_at = \<lparr>ts_year = 2024, ts_month = Feb, ts_day = 1\<rparr>, h_pints_donated = 0\<rparr>,
            \<lparr>h_created_at = \<lparr>ts_year = 2024, ts_month = Mar, ts_day = 1\<rparr>, h_pints_donated = 7\<rparr>]"
    by (simp add: eval_defs input_defs)
qed

theorem aggregation_gap_filling_witness:
  "\<exists>history. snd (prepare_history spec_example) = Inr history
     \<and> length history = 3
     \<and> map (\<lambda>row. month_index (h_created_at row)) history = [24288, 24289, 24290]
     \<and> h_pints_donated (history ! 1) = 0
     \<and> sorted_wrt (<) (map (\<lambda>row. month_index (h_created_at row)) history)"
proof -
  have ne: "spec_example \<noteq> []" by (simp add: spec_example_def)
  have s: "row_month ` set spec_example = {24288, 24290}"
    by (auto simp: spec_example_def row_month_def month_index_def)
  have lo: "Min (row_month ` set spec_example) = 24288" and hi: "Max (row_month ` set spec_example) = 24290"
    unfolding s by simp_all
  from aggregation_gap_filling[of spec_example] ne
  obtain history where h: "snd (prepare_history spec_example) = Inr history"
    and len0: "length history =
        Max (row_month ` set spec_example) - Min (row_month ` set spec_example) + 1"
    and nth0: "\<forall>i<length history.
               h_created_at (history ! i) = month_start (Min (row_month ` set spec_example) + i)
             \<and> month_index (h_created_at (history ! i)) = Min (row_month ` set spec_example) + i
             \<and> h_pints_donated (history ! i) =
                 sum_list (map pints_donated
                   (filter (\<lambda>r. row_month r = Min (row_month ` set spec_example) + i) spec_example))
             \<and> ((\<forall>r\<in>set spec_example. row_month r \<noteq> Min (row_month ` set spec_example) + i)
                   \<longrightarrow> h_pints_donated (history ! i) = 0)"
    and srt: "sorted_wrt (<) (map (\<lambda>row. month_index (h_created_at row)) history)"
    by blast
  have len: "length history = 3" using len0 unfolding lo hi by simp
  have nth: "\<forall>i<length history.
             month_index (h_created_at (history ! i)) = 24288 + i
             \<and> ((\<forall>r\<in>set spec_example. row_month r \<noteq> 24288 + i)
                   \<longrightarrow> h_pints_donated (history ! i) = 0)"
    using nth0 unfolding lo by blast
  have m: "map (\<lambda>row. month_index (h_created_at row)) history = [24288, 24289, 24290]"
    using len nth by (auto simp: list_eq_iff_nth_eq less_Suc_eq numeral_3_eq_3)
  have "\<forall>r\<in>set spec_example. row_month r \<noteq> 24288 + 1"
    by (simp add: spec_example_def row_month_def month_index_def)
  with nth len have z: "h_pints_donated (history ! 1) = 0" by simp
  show ?thesis
    by (rule exI[of _ history]) (use h len m z srt in simp)
qed

subsection \<open>Determinism\<close>

text \<open>
  As stated, C1 holds for every record collection. Over the empty collection the anchor
  date is \<^verbatim>\<open>datetime.now()\<close> (line 190), so two invocations with the same (empty) history
  and the same parameters, one in January and one in February, label their forecast
  points differently.
\<close>

theorem determinism_counterexample:
  "result_of (run_simulation no_noise some_world [] 1 0 0 0) =
     Inr \<lparr>forecast_df = [\<lparr>Date = ''Feb 2024'', Inventory = 1050, MonthlySupply = 1000, MonthlyDemand = 950\<rparr>],
          avg_sup = 1000, avg_dem = 950\<rparr>
   \<and> result_of (run_simulation no_noise later_world [] 1 0 0 0) =
     Inr \<lparr>forecast_df = [\<lparr>Date = ''Mar 2024'', Inventory = 1050, MonthlySupply = 1000, MonthlyDemand = 950\<rparr>],
          avg_sup = 1000, avg_dem = 950\<rparr>
   \<and> result_of (run_simulation no_noise some_world [] 1 0 0 0)
       \<noteq> result_of (run_simulation no_noise later_world [] 1 0 0 0)"
  by (simp add: eval_defs input_defs)

text \<open>
  C1, amended. For a fixed record collection and fixed parameters, two invocations return
  the same forecast rows (labels, inventory, monthly supply, monthly demand) and the same
  mean supply and mean demand, whatever the state of the global random generator and the
  clock at either invocation, provided the collection is not empty or both invocations
  read the same calendar month from the clock. The second invocation may also run on the
  frame as the first one left it.
\<close>

theorem determinism:
  assumes "df \<noteq> [] \<or> month_index (clock w1) = month_index (clock w2)"
  shows "\<exists>r. result_of (run_simulation gauss w1 df n sh bo wa) = Inr r
       \<and> result_of (run_simulation gauss w2 df n sh bo wa) = Inr r
       \<and> result_of (run_simulation gauss w2 (assign_created_at df) n sh bo wa) = Inr r"
proof -
  have "month_index (current_date_of w1 (monthly_series df))
         = month_index (current_date_of w2 (monthly_series df))"
  proof (cases "df = []")
    case True
    with assms show ?thesis by (simp add: current_date_of_def monthly_series_def)
  next
    case False
    then show ?thesis using current_date_nonempty[of df w1 w2] by simp
  qed
  from rows_deterministic[OF this] show ?thesis by (simp add: result_of_assign)
qed

theorem determinism_witness:
  "(\<exists>r. result_of (run_simulation low_noise some_world one_donation 2 10 5 5) = Inr r
       \<and> result_of (run_simulation low_noise later_world one_donation 2 10 5 5) = Inr r
       \<and> result_of (run_simulation low_noise later_world (assign_created_at one_donation) 2 10 5 5) = Inr r)
   \<and> (\<exists>r. result_of (run_simulation low_noise some_world [] 2 10 5 5) = Inr r
       \<and> result_of (run_simulation low_noise reseeded_world [] 2 10 5 5) = Inr r)"
proof -
  have a: "one_donation \<noteq> []" by (simp add: one_donation_def)
  have b: "month_index (clock some_world) = month_index (clock reseeded_world)"
    by (simp add: input_defs month_index_def)
  show ?thesis
    using determinism[of one_donation some_world later_world low_noise 2 10 5 5]
      determinism[of "[]" some_world reseeded_world low_noise 2 10 5 5] a b
    by blast
qed

subsection \<open>The empty history\<close>

text \<open>
  As stated, C4 has the aggregation of zero records fail with an error from which the
  caller recovers. The aggregation of the empty frame does not fail: it returns the empty
  monthly series, a value.
\<close>

theorem empty_history_counterexample:
  "resample_MS_sum [] = Inr [] \<and> prepare_history [] = ([], Inr [])"
  by (simp add: prepare_history_def resample_MS_sum_def assign_created_at_def)

text \<open>
  C4, amended. The aggregation of zero records returns the empty monthly series and raises
  nothing; \<^verbatim>\<open>run_simulation\<close> tests the series for emptiness (lines 188 and 190) and then
  takes 1000 units as the last historical total and the current date as the anchor: the
  projection returns a forecast of the full horizon whose trend is 1000 at every step,
  whose inventory starts from 1000 and whose periods count months from the clock's date.
\<close>

theorem empty_history_defaults:
  "snd (prepare_history []) = Inr []
   \<and> last_actual_supply_of [] = 1000
   \<and> current_date_of w [] = clock w
   \<and> (\<exists>r. result_of (run_simulation gauss w [] n sh bo wa) = Inr r
         \<and> length (forecast_df r) = nat n
         \<and> (\<forall>i<nat n. Date (forecast_df r ! i)
               = strftime_b_Y (date_offset_months (clock w) (1 + int i))))
   \<and> (\<forall>i<nat n.
         trend_component (steps (run_iterations gauss w [] n sh bo wa) ! i) = 1000
       \<and> next_date (steps (run_iterations gauss w [] n sh bo wa) ! i)
           = date_offset_months (clock w) (1 + int i))
   \<and> (0 < n \<longrightarrow>
         current_inventory (steps (run_iterations gauss w [] n sh bo wa) ! 0)
           = 1000 + (sim_supply (steps (run_iterations gauss w [] n sh bo wa) ! 0)
                     - sim_demand (steps (run_iterations gauss w [] n sh bo wa) ! 0)))"
proof -
  have A: "snd (prepare_history []) = Inr []"
    using prepare_history_series[of "[]"] by (simp add: monthly_series_Nil)
  have B: "last_actual_supply_of [] = 1000" by (simp add: last_actual_supply_of_def)
  have C: "current_date_of w [] = clock w" by (simp add: current_date_of_def)
  have d: "detect_trend (monthly_series []) = Inr (0, 10)"
    by (simp add: monthly_series_Nil detect_trend_degenerate recent_window_def)
  have E: "\<forall>i<nat n.
         trend_component (steps (run_iterations gauss w [] n sh bo wa) ! i) = 1000
       \<and> next_date (steps (run_iterations gauss w [] n sh bo wa) ! i)
           = date_offset_months (clock w) (1 + int i)"
  proof (intro allI impI)
    fix i assume i: "i < nat n"
    from steps_nth[OF d i, of gauss w sh bo wa]
    show "trend_component (steps (run_iterations gauss w [] n sh bo wa) ! i) = 1000
       \<and> next_date (steps (run_iterations gauss w [] n sh bo wa) ! i)
           = date_offset_months (clock w) (1 + int i)"
      by (simp add: monthly_series_Nil B C)
  qed
  obtain r where r: "result_of (run_simulation gauss w [] n sh bo wa) = Inr r"
    and f: "forecast_df r = map to_forecast_row (steps (run_iterations gauss w [] n sh bo wa))"
    using result_of_run by blast
  have D: "\<exists>r. result_of (run_simulation gauss w [] n sh bo wa) = Inr r
         \<and> length (forecast_df r) = nat n
         \<and> (\<forall>i<nat n. Date (forecast_df r ! i)
               = strftime_b_Y (date_offset_months (clock w) (1 + int i)))"
    apply (rule exI[of _ r])
    using r f E by (simp add: length_steps to_forecast_row_def)
  have F: "0 < n \<longrightarrow>
         current_inventory (steps (run_iterations gauss w [] n sh bo wa) ! 0)
           = 1000 + (sim_supply (steps (run_iterations gauss w [] n sh bo wa) ! 0)
                     - sim_demand (steps (run_iterations gauss w [] n sh bo wa) ! 0))"
  proof
    assume "0 < n"
    then have "0 < nat n" by simp
    from steps_balance[OF this, of gauss w "[]" sh bo wa] show
      "current_inventory (steps (run_iterations gauss w [] n sh bo wa) ! 0)
           = 1000 + (sim_supply (steps (run_iterations gauss w [] n sh bo wa) ! 0)
                     - sim_demand (steps (run_iterations gauss w [] n sh bo wa) ! 0))"
      by (simp add: monthly_series_Nil B)
  qed
  show ?thesis using A B C D E F by blast
qed

theorem empty_history_defaults_witness:
  "\<exists>r. result_of (run_simulation no_noise some_world [] 2 0 0 0) = Inr r
      \<and> map Date (forecast_df r) = [''Feb 2024'', ''Mar 2024'']
      \<and> trend_component (steps (run_iterations no_noise some_world [] 2 0 0 0) ! 1) = 1000
      \<and> current_inventory (steps (run_iterations no_noise some_world [] 2 0 0 0) ! 0)
           = 1000 + (sim_supply (steps (run_iterations no_noise some_world [] 2 0 0 0) ! 0)
                     - sim_demand (steps (run_iterations no_noise some_world [] 2 0 0 0) ! 0))"
proof -
  note t = empty_history_defaults[of some_world no_noise 2 0 0 0]
  from t obtain r where r: "result_of (run_simulation no_noise some_world [] 2 0 0 0) = Inr r"
    and len: "length (forecast_df r) = nat 2"
    and dates: "\<forall>i<nat 2. Date (forecast_df r ! i)
               = strftime_b_Y (date_offset_months (clock some_world) (1 + int i))"
    by blast
  have d0: "Date (forecast_df r ! 0) = ''Feb 2024''"
    using dates[rule_format, of 0] by (simp add: eval_defs input_defs)
  have d1: "Date (forecast_df r ! 1) = ''Mar 2024''"
    using dates[rule_format, of 1] by (simp add: eval_defs input_defs)
  have m: "map Date (forecast_df r) = [''Feb 2024'', ''Mar 2024'']"
    using len d0 d1 by (auto simp: list_eq_iff_nth_eq less_Suc_eq numeral_2_eq_2)
  from t have tr: "trend_component (steps (run_iterations no_noise some_world [] 2 0 0 0) ! 1) = 1000"
    by simp
  from t have inv: "current_inventory (steps (run_iterations no_noise some_world [] 2 0 0 0) ! 0)
           = 1000 + (sim_supply (steps (run_iterations no_noise some_world [] 2 0 0 0) ! 0)
                     - sim_demand (steps (run_iterations no_noise some_world [] 2 0 0 0) ! 0))"
    by simp
  show ?thesis by (rule exI[of _ r]) (use r m tr inv in simp)
qed

subsection \<open>The frame of a call\<close>

text \<open>
  As stated, C9 leaves every input collection unchanged. Line 161 assigns the parsed
  timestamps to the \<^verbatim>\<open>created_at\<close> column of the caller's frame: a frame whose column
  holds a date as text holds a timestamp in its place after the call.
\<close>

theorem purity_counterexample:
  "run_simulation no_noise some_world one_donation 1 0 0 0 =
     Inr (\<lparr>forecast_df = [\<lparr>Date = ''Feb 2024'', Inventory = 10, MonthlySupply = 10, MonthlyDemand = 9\<rparr>],
           avg_sup = 10, avg_dem = 9\<rparr>,
          [\<lparr>created_at = Stamp mid_jan_2024, pints_donated = 10, blood_group = ''A+''\<rparr>],
          \<lparr>rng = \<lparr>rng_seed = 42, rng_pos = 2\<rparr>, clock = mid_jan_2024\<rparr>)
   \<and> [\<lparr>created_at = Stamp mid_jan_2024, pints_donated = 10, blood_group = ''A+''\<rparr>] \<noteq> one_donation"
  by (simp add: eval_defs input_defs)

text \<open>
  C9, amended. A call that returns has written to two places only. The caller's frame
  keeps its rows and the values of its volume and blood group columns, and its
  \<^verbatim>\<open>created_at\<close> column holds the parsed timestamps, so the frame is unchanged exactly
  when the column held timestamps already. The global random generator is left seeded
  with 42 and advanced by two draws per forecast step. The clock is read, not written.
\<close>

theorem frame_of_run:
  assumes "run_simulation gauss w df n sh bo wa = Inr (r, df', w')"
  shows "length df' = length df
     \<and> (\<forall>i<length df.
           created_at (df' ! i) = Stamp (cell_time (created_at (df ! i)))
         \<and> pints_donated (df' ! i) = pints_donated (df ! i)
         \<and> blood_group (df' ! i) = blood_group (df ! i))
     \<and> (list_all (\<lambda>r. is_stamp (created_at r)) df \<longrightarrow> df' = df)
     \<and> w' = w\<lparr>rng := \<lparr>rng_seed = 42, rng_pos = 2 * nat n\<rparr>\<rparr>
     \<and> clock w' = clock w"
proof -
  obtain r0 where r: "run_simulation gauss w df n sh bo wa =
     Inr (r0, assign_created_at df, w\<lparr>rng := \<lparr>rng_seed = 42, rng_pos = 2 * nat n\<rparr>\<rparr>)"
    using run_world_after by blast
  from assms r have d: "df' = assign_created_at df"
    and w: "w' = w\<lparr>rng := \<lparr>rng_seed = 42, rng_pos = 2 * nat n\<rparr>\<rparr>" by simp_all
  have a: "length (assign_created_at df) = length df" by (simp add: assign_created_at_def)
  have b: "\<forall>i<length df.
           created_at (assign_created_at df ! i) = Stamp (cell_time (created_at (df ! i)))
         \<and> pints_donated (assign_created_at df ! i) = pints_donated (df ! i)
         \<and> blood_group (assign_created_at df ! i) = blood_group (df ! i)"
    by (simp add: assign_created_at_def pd_to_datetime_def)
  have c: "list_all (\<lambda>r. is_stamp (created_at r)) df \<longrightarrow> assign_created_at df = df"
    using assign_stamps_id by blast
  show ?thesis unfolding d w using a b c by simp
qed

theorem frame_of_run_witness:
  "run_simulation low_noise some_world flat_donations 2 0 3 0 =
     Inr (\<lparr>forecast_df =
             [\<lparr>Date = ''Mar 2024'', Inventory = 10, MonthlySupply = 10, MonthlyDemand = 9\<rparr>,
              \<lparr>Date = ''Apr 2024'', Inventory = 11, MonthlySupply = 10, MonthlyDemand = 9\<rparr>],
           avg_sup = 10, avg_dem = 9\<rparr>,
          flat_donations,
          \<lparr>rng = \<lparr>rng_seed = 42, rng_pos = 4\<rparr>, clock = mid_jan_2024\<rparr>)
   \<and> list_all (\<lambda>r. is_stamp (created_at r)) flat_donations
   \<and> some_world\<lparr>rng := \<lparr>rng_seed = 42, rng_pos = 2 * nat 2\<rparr>\<rparr>
       = \<lparr>rng = \<lparr>rng_seed = 42, rng_pos = 4\<rparr>, clock = mid_jan_2024\<rparr>
   \<and> clock \<lparr>rng = \<lparr>rng_seed = 42, rng_pos = 4\<rparr>, clock = mid_jan_2024\<rparr> = clock some_world"
proof -
  have a: "run_simulation low_noise some_world flat_donations 2 0 3 0 =
     Inr (\<lparr>forecast_df =
             [\<lparr>Date = ''Mar 2024'', Inventory = 10, MonthlySupply = 10, MonthlyDemand = 9\<rparr>,
              \<lparr>Date = ''Apr 2024'', Inventory = 11, MonthlySupply = 10, MonthlyDemand = 9\<rparr>],
           avg_sup = 10, avg_dem = 9\<rparr>,
          flat_donations,
          \<lparr>rng = \<lparr>rng_seed = 42, rng_pos = 4\<rparr>, clock = mid_jan_2024\<rparr>)"
    by (simp add: eval_defs input_defs)
  have s: "list_all (\<lambda>r. is_stamp (created_at r)) flat_donations"
    by (simp add: flat_donations_def)
  from frame_of_run[OF a] a s show ?thesis by simp
qed

end
